theory Spec2Isabelle
  imports Main "HOL-Library.Word"
begin

section \<open>The session of the BaseX client (index.js)\<close>

text \<open>
  The client is a single object, \<open>Session\<close>, driven by the events of a socket. The
  model is a record of its fields and one function per method, each taking the session
  and returning the session it leaves behind. Node's event loop runs one handler at a
  time to completion, so an event is one function application.
\<close>

subsection \<open>What the Node runtime provides\<close>

type_synonym byte = "8 word"

text \<open>
  \<open>Buffer.byteLength\<close>, \<open>Buffer.write\<close>, \<open>Buffer.toString('utf8', ...)\<close>, the
  \<open>crypto\<close> module and the coercion behind \<open>==\<close> belong to the runtime, not to
  the repository. They are parameters of the model:
  \<^item> \<open>utf8_bytes str\<close>: the bytes \<open>buffer.write(str)\<close> stores, whose number is
    \<open>Buffer.byteLength(str)\<close>;
  \<^item> \<open>utf8_toString bs\<close>: \<open>buffer.toString('utf8')\<close> on a buffer holding \<open>bs\<close>;
  \<^item> \<open>md5_hex str\<close>: \<open>crypto.createHash('md5').update(str).digest("hex")\<close>;
  \<^item> \<open>string_eq_zero str\<close>: the value of \<open>str == 0\<close>.
\<close>

record runtime =
  utf8_bytes :: "string \<Rightarrow> byte list"
  utf8_toString :: "byte list \<Rightarrow> string"
  md5_hex :: "string \<Rightarrow> string"
  string_eq_zero :: "string \<Rightarrow> bool"

subsection \<open>Values, handlers and continuations\<close>

text \<open>The values the readers hand to their handlers: a decoded string, a byte of a
  buffer, or \<open>undefined\<close> (index 0 of an empty buffer, a missing argument).\<close>

datatype jsval = JStr string | JByte byte | JUndefined

text \<open>The handler of \<open>execute\<close>: \<open>this.defaultHandler\<close>, or a function of the caller.
  A caller's function is opaque: the model records that it was called, and with what.\<close>

datatype handler = DefaultHandler | Callback nat

text \<open>\<open>this.readString\<close> and \<open>this.readByte\<close> as first-class values: the steps given
  to \<open>chain\<close>, and the first component of \<open>this.waiting\<close>.\<close>

datatype reader = ReadString | ReadByte

text \<open>
  The closures of the source, one constructor each, with the variables they capture:
  \<^item> \<open>HandshakeCont\<close>: \<open>function(timestamp) { this.writeStrings(...) }\<close> in
    \<open>performHandshake\<close>;
  \<^item> \<open>LoginStatusCont\<close>: \<open>function(loginStatus) { ... }\<close> in \<open>getLoginStatus\<close>;
  \<^item> \<open>MaybeInvokeNext args functions (InvokeHandler query handler)\<close>:
    \<open>maybeInvokeNext\<close> in \<open>chain\<close>, with the current contents of \<open>args\<close> and
    \<open>functions\<close> and the final handler, \<open>invokeHandler\<close> of \<open>execute\<close>;
  \<^item> \<open>UserCont n\<close>: a handler some other caller passed to \<open>readString\<close> or
    \<open>readByte\<close>, opaque.
\<close>

datatype final = InvokeHandler string handler

datatype cont =
    HandshakeCont
  | LoginStatusCont
  | MaybeInvokeNext "jsval list" "reader list" final
  | UserCont nat

text \<open>The callbacks given to \<open>socket.write\<close>: \<open>this.getLoginStatus\<close>, and the
  function in \<open>execute\<close> that starts the chain of reads.\<close>

datatype write_cb = GetLoginStatus | StartChain string handler

text \<open>What the session does to the outside, in the order it does it.\<close>

datatype payload = NoPayload | ErrorObj string | ResultObj jsval jsval jsval

datatype effect =
    Wrote "byte list"              \<comment> \<open>\<open>socket.write(buffer, ...)\<close>\<close>
  | Called nat jsval jsval         \<comment> \<open>\<open>handler.call(this, result, info)\<close>, a caller's handler\<close>
  | Received nat jsval             \<comment> \<open>a \<open>UserCont\<close> was called\<close>
  | Emitted string payload         \<comment> \<open>\<open>this.emit(name, payload)\<close>\<close>

subsection \<open>The session\<close>

record session_options =
  opt_host :: "string option"
  opt_port :: "nat option"
  opt_user :: "string option"
  opt_password :: "string option"
  opt_initialStringBufferSize :: "nat option"

text \<open>\<open>this.options.__proto__ = exports.sessionDefaults\<close>: a key the caller left out
  is read from the defaults.\<close>

definition option_user :: "session_options \<Rightarrow> string" where
  "option_user opts = (case opt_user opts of Some u \<Rightarrow> u | None \<Rightarrow> ''admin'')"

definition option_password :: "session_options \<Rightarrow> string" where
  "option_password opts = (case opt_password opts of Some p \<Rightarrow> p | None \<Rightarrow> ''admin'')"

definition option_initialStringBufferSize :: "session_options \<Rightarrow> nat" where
  "option_initialStringBufferSize opts =
     (case opt_initialStringBufferSize opts of Some n \<Rightarrow> n | None \<Rightarrow> 0x10000)"

text \<open>
  The fields of \<open>Session\<close>, then the socket as the session sees it: the callbacks of
  writes not yet flushed (\<open>writeCallbacks\<close>, oldest first) and the effects so far
  (\<open>trace\<close>). \<open>waiting\<close> is \<open>[]\<close> (here \<open>None\<close>) or \<open>[reader, handler]\<close>.
\<close>

record session =
  options :: session_options
  stringBuffer :: "byte list"
  stringBufferOffset :: nat
  inEscape :: bool
  waiting :: "(reader \<times> cont) option"
  buffers :: "byte list list"
  busy :: bool
  queue :: "(string \<times> handler) list"
  writeCallbacks :: "write_cb list"
  trace :: "effect list"

definition no_options :: session_options where
  "no_options = \<lparr>opt_host = None, opt_port = None, opt_user = None, opt_password = None,
     opt_initialStringBufferSize = None\<rparr>"

text \<open>The constructor. \<open>new Buffer(n)\<close> is \<open>n\<close> bytes of memory that the session
  never reads before writing them; they are zero here.\<close>

definition Session :: "session_options option \<Rightarrow> session" where
  "Session opts =
     (let options = (case opts of Some o' \<Rightarrow> o' | None \<Rightarrow> no_options) in
      \<lparr>options = options,
       stringBuffer = replicate (option_initialStringBufferSize options) 0,
       stringBufferOffset = 0,
       inEscape = False,
       waiting = None,
       buffers = [],
       busy = True,
       queue = [],
       writeCallbacks = [],
       trace = []\<rparr>)"

subsection \<open>Decoding strings\<close>

text \<open>\<open>pushToStringBuffer\<close>: a full buffer is copied into one of twice the offset;
  the byte is stored at the offset. A store beyond the end of a Buffer does nothing,
  as \<open>list_update\<close> does.\<close>

definition pushToStringBuffer :: "byte \<Rightarrow> session \<Rightarrow> session" where
  "pushToStringBuffer byte s =
     (let s1 = (if length (stringBuffer s) = stringBufferOffset s
                then s\<lparr>stringBuffer :=
                        take (stringBufferOffset s * 2) (stringBuffer s)
                        @ replicate (stringBufferOffset s * 2 - length (stringBuffer s)) 0\<rparr>
                else s)
      in s1\<lparr>stringBuffer := (stringBuffer s1)[stringBufferOffset s1 := byte],
            stringBufferOffset := stringBufferOffset s1 + 1\<rparr>)"

text \<open>The \<open>for\<close> loop of \<open>getStringFromBuffers\<close> over one buffer, already shifted off
  the chain: \<open>Some retval\<close> where the source returns, \<open>None\<close> where the loop ends.\<close>

fun scanBuffer :: "runtime \<Rightarrow> byte list \<Rightarrow> session \<Rightarrow> string option \<times> session" where
  "scanBuffer rt [] s = (None, s)"
| "scanBuffer rt (byte # rest) s =
     (if inEscape s then
        scanBuffer rt rest ((pushToStringBuffer byte s)\<lparr>inEscape := False\<rparr>)
      else if byte = 0xff then
        scanBuffer rt rest (s\<lparr>inEscape := True\<rparr>)
      else if byte = 0x00 then
        (let retval = utf8_toString rt (take (stringBufferOffset s) (stringBuffer s)) in
         (Some retval,
          s\<lparr>stringBufferOffset := 0,
            buffers := (if rest \<noteq> [] then rest # buffers s else buffers s)\<rparr>))
      else
        scanBuffer rt rest (pushToStringBuffer byte s))"

lemma buffers_pushToStringBuffer [simp]:
  "buffers (pushToStringBuffer byte s) = buffers s"
  by (simp add: pushToStringBuffer_def Let_def)

lemma scanBuffer_None_buffers:
  "scanBuffer rt buffer s = (None, s') \<Longrightarrow> buffers s' = buffers s"
  by (induction rt buffer s rule: scanBuffer.induct) (auto split: if_splits simp: Let_def)

text \<open>The \<open>while\<close> loop: \<open>null\<close> is \<open>None\<close>.\<close>

function getStringFromBuffers :: "runtime \<Rightarrow> session \<Rightarrow> string option \<times> session" where
  "getStringFromBuffers rt s =
     (case buffers s of
        [] \<Rightarrow> (None, s)
      | buffer # bs \<Rightarrow>
          (case scanBuffer rt buffer (s\<lparr>buffers := bs\<rparr>) of
             (Some retval, s') \<Rightarrow> (Some retval, s')
           | (None, s') \<Rightarrow> getStringFromBuffers rt s'))"
  by pat_completeness auto
termination
proof (relation "measure (\<lambda>(rt, s). length (buffers s))")
  show "wf (measure (\<lambda>(rt, s). length (buffers s)))" by simp
next
  fix rt :: runtime and s :: session and buffer bs x s'
  assume b: "buffers s = buffer # bs"
    and sc: "(x, s') = scanBuffer rt buffer (s\<lparr>buffers := bs\<rparr>)"
    and n: "x = None"
  from sc n have "scanBuffer rt buffer (s\<lparr>buffers := bs\<rparr>) = (None, s')" by simp
  then have "buffers s' = bs" by (simp add: scanBuffer_None_buffers)
  with b show "((rt, s'), (rt, s)) \<in> measure (\<lambda>(rt, s). length (buffers s))" by simp
qed

declare getStringFromBuffers.simps [simp del]

text \<open>\<open>getByteFromBuffers\<close>. \<open>this.buffers[0][0]\<close> on an empty chain is a TypeError
  (\<open>None\<close>); on an empty first buffer it is \<open>undefined\<close>.\<close>

definition getByteFromBuffers :: "session \<Rightarrow> (jsval \<times> session) option" where
  "getByteFromBuffers s =
     (case buffers s of
        [] \<Rightarrow> None
      | first # others \<Rightarrow>
          Some (case first of [] \<Rightarrow> JUndefined | byte # _ \<Rightarrow> JByte byte,
                if length first > 1 then s\<lparr>buffers := drop 1 first # others\<rparr>
                else s\<lparr>buffers := others\<rparr>))"

subsection \<open>Writing strings\<close>

text \<open>\<open>buffer.write(str, offset)\<close> where the buffer has room for the string, as it has
  in \<open>writeStrings\<close>: the bytes are stored from \<open>offset\<close> on and counted.\<close>

definition buffer_write :: "runtime \<Rightarrow> byte list \<Rightarrow> string \<Rightarrow> nat \<Rightarrow> byte list \<times> nat" where
  "buffer_write rt buffer str offset =
     (let bytes = utf8_bytes rt str in
      (take (length buffer) (take offset buffer @ bytes @ drop (offset + length bytes) buffer),
       length bytes))"

text \<open>The two loops of \<open>writeStrings\<close>: the size of the buffer, then the strings, each
  followed by a zero.\<close>

fun writeStrings_size :: "runtime \<Rightarrow> string list \<Rightarrow> nat" where
  "writeStrings_size rt [] = 0"
| "writeStrings_size rt (str # strs) = length (utf8_bytes rt str) + 1 + writeStrings_size rt strs"

fun writeStrings_fill :: "runtime \<Rightarrow> string list \<Rightarrow> byte list \<Rightarrow> nat \<Rightarrow> byte list" where
  "writeStrings_fill rt [] buffer offset = buffer"
| "writeStrings_fill rt (str # strs) buffer offset =
     (let (buffer1, written) = buffer_write rt buffer str offset;
          offset1 = offset + written;
          buffer2 = buffer1[offset1 := 0]
      in writeStrings_fill rt strs buffer2 (offset1 + 1))"

definition writeStrings :: "runtime \<Rightarrow> string list \<Rightarrow> write_cb \<Rightarrow> session \<Rightarrow> session" where
  "writeStrings rt strs handler s =
     (let buffer = writeStrings_fill rt strs (replicate (writeStrings_size rt strs) 0) 0 in
      s\<lparr>writeCallbacks := writeCallbacks s @ [handler],
        trace := trace s @ [Wrote buffer]\<rparr>)"

subsection \<open>Commands and the queue\<close>

text \<open>\<open>this.emit(name, payload)\<close>: the notification is recorded. What the listeners
  do is outside the session, as is the exception Node raises for an \<open>error\<close> nobody
  listens to: \<open>emit\<close> is the last statement wherever the session calls it, so the
  fields are the same with and without it.\<close>

definition emit :: "string \<Rightarrow> payload \<Rightarrow> session \<Rightarrow> session" where
  "emit name payload s = s\<lparr>trace := trace s @ [Emitted name payload]\<rparr>"

definition defaultHandler :: "jsval \<Rightarrow> jsval \<Rightarrow> jsval \<Rightarrow> session \<Rightarrow> session" where
  "defaultHandler result info code s = emit ''result'' (ResultObj result info code) s"

text \<open>\<open>handler.call(this, result, info)\<close>: two arguments, so the third parameter of
  \<open>defaultHandler\<close> is \<open>undefined\<close>.\<close>

fun call_handler :: "handler \<Rightarrow> jsval \<Rightarrow> jsval \<Rightarrow> session \<Rightarrow> session" where
  "call_handler DefaultHandler result info s = defaultHandler result info JUndefined s"
| "call_handler (Callback n) result info s = s\<lparr>trace := trace s @ [Called n result info]\<rparr>"

text \<open>\<open>execute\<close>, up to the write: the function given to \<open>writeStrings\<close> runs when the
  socket calls it. A queued thunk is \<open>execute\<close> bound to \<open>query\<close> and \<open>handler\<close>.\<close>

definition execute :: "runtime \<Rightarrow> string \<Rightarrow> handler option \<Rightarrow> session \<Rightarrow> session" where
  "execute rt query handler_arg s =
     (let handler = (case handler_arg of Some h \<Rightarrow> h | None \<Rightarrow> DefaultHandler) in
      if busy s then s\<lparr>queue := (query, handler) # queue s\<rparr>
      else writeStrings rt [query] (StartChain query handler) (s\<lparr>busy := True\<rparr>))"

definition checkQueue :: "runtime \<Rightarrow> session \<Rightarrow> session" where
  "checkQueue rt s =
     (let s1 = s\<lparr>busy := False\<rparr> in
      if queue s1 \<noteq> [] then
        (case last (queue s1) of
           (query, handler) \<Rightarrow> execute rt query (Some handler) (s1\<lparr>queue := butlast (queue s1)\<rparr>))
      else s1)"

subsection \<open>Coercions\<close>

definition digit_char :: "nat \<Rightarrow> char" where
  "digit_char d = char_of (48 + d)"

definition byte_toString :: "byte \<Rightarrow> string" where
  "byte_toString b =
     (let n = unat b in
      (if 100 \<le> n then [digit_char (n div 100)] else [])
      @ (if 10 \<le> n then [digit_char (n div 10 mod 10)] else [])
      @ [digit_char (n mod 10)])"

text \<open>A value where a string is concatenated to it, and a value compared with \<open>== 0\<close>.\<close>

fun js_toString :: "jsval \<Rightarrow> string" where
  "js_toString (JStr str) = str"
| "js_toString (JByte b) = byte_toString b"
| "js_toString JUndefined = ''undefined''"

fun loose_eq_zero :: "runtime \<Rightarrow> jsval \<Rightarrow> bool" where
  "loose_eq_zero rt (JStr str) = string_eq_zero rt str"
| "loose_eq_zero rt (JByte b) = (b = 0)"
| "loose_eq_zero rt JUndefined = False"

text \<open>A positional parameter of a function applied to \<open>args\<close>.\<close>

definition arg_at :: "jsval list \<Rightarrow> nat \<Rightarrow> jsval" where
  "arg_at args i = (if i < length args then args ! i else JUndefined)"

subsection \<open>Reading, and the continuations\<close>

text \<open>\<open>invokeHandler\<close>, the function \<open>execute\<close> gives to \<open>chain\<close>.\<close>

definition invokeHandler ::
  "runtime \<Rightarrow> string \<Rightarrow> handler \<Rightarrow> jsval \<Rightarrow> jsval \<Rightarrow> jsval \<Rightarrow> session \<Rightarrow> session" where
  "invokeHandler rt query handler result info code s =
     (if loose_eq_zero rt code then
        checkQueue rt (call_handler handler result info s)
      else
        emit ''error''
          (ErrorObj (''BaseX query failed\<newline>query: '' @ query @ ''\<newline>'' @ ''message: ''
                     @ js_toString info)) s)"

fun apply_final :: "runtime \<Rightarrow> final \<Rightarrow> jsval list \<Rightarrow> session \<Rightarrow> session" where
  "apply_final rt (InvokeHandler query handler) args s =
     invokeHandler rt query handler (arg_at args 0) (arg_at args 1) (arg_at args 2) s"

fun pending_steps :: "cont \<Rightarrow> nat" where
  "pending_steps (MaybeInvokeNext args functions handler) = length functions"
| "pending_steps _ = 0"

text \<open>
  \<open>readString\<close>, \<open>readByte\<close> and the call of a continuation (\<open>handler.call(this, arg)\<close>)
  call each other: \<open>maybeInvokeNext\<close> calls the next reader, which calls
  \<open>maybeInvokeNext\<close> at once when the data is there. In \<open>readString\<close> the test is
  \<open>if (string)\<close>: \<open>null\<close> and the empty string both fail it.
\<close>

function readString :: "runtime \<Rightarrow> cont \<Rightarrow> session \<Rightarrow> session"
  and readByte :: "runtime \<Rightarrow> cont \<Rightarrow> session \<Rightarrow> session"
  and call_cont :: "runtime \<Rightarrow> cont \<Rightarrow> jsval \<Rightarrow> session \<Rightarrow> session"
where
  "readString rt handler s =
     (case getStringFromBuffers rt s of
        (Some string, s') \<Rightarrow>
          if string \<noteq> [] then call_cont rt handler (JStr string) s'
          else s'\<lparr>waiting := Some (ReadString, handler)\<rparr>
      | (None, s') \<Rightarrow> s'\<lparr>waiting := Some (ReadString, handler)\<rparr>)"
| "readByte rt handler s =
     (if buffers s \<noteq> [] then
        (case getByteFromBuffers s of
           Some (byte, s') \<Rightarrow> call_cont rt handler byte s'
         | None \<Rightarrow> s)
      else s\<lparr>waiting := Some (ReadByte, handler)\<rparr>)"
| "call_cont rt HandshakeCont timestamp s =
     writeStrings rt
       [option_user (options s),
        md5_hex rt (md5_hex rt (option_password (options s)) @ js_toString timestamp)]
       GetLoginStatus s"
| "call_cont rt LoginStatusCont loginStatus s =
     (if loose_eq_zero rt loginStatus then emit ''loggedIn'' NoPayload (checkQueue rt s)
      else emit ''error'' (ErrorObj ''authorization failed'') s)"
| "call_cont rt (MaybeInvokeNext args functions handler) arg s =
     (let args' = args @ [arg] in
      case functions of
        ReadString # functions' \<Rightarrow> readString rt (MaybeInvokeNext args' functions' handler) s
      | ReadByte # functions' \<Rightarrow> readByte rt (MaybeInvokeNext args' functions' handler) s
      | [] \<Rightarrow> apply_final rt handler args' s)"
| "call_cont rt (UserCont n) arg s = s\<lparr>trace := trace s @ [Received n arg]\<rparr>"
  by pat_completeness auto
termination
  by (relation "measure (\<lambda>x. case x of
        Inl (rt, handler, s) \<Rightarrow> 2 * pending_steps handler + 2
      | Inr (Inl (rt, handler, s)) \<Rightarrow> 2 * pending_steps handler + 2
      | Inr (Inr (rt, handler, arg, s)) \<Rightarrow> 2 * pending_steps handler + 1)") auto

declare readString.simps [simp del] readByte.simps [simp del]

text \<open>\<open>chain(handler, first, ...functions)\<close>: \<open>first.call(session, maybeInvokeNext)\<close>
  with \<open>args\<close> empty.\<close>

fun chain :: "runtime \<Rightarrow> final \<Rightarrow> reader \<Rightarrow> reader list \<Rightarrow> session \<Rightarrow> session" where
  "chain rt handler ReadString functions s = readString rt (MaybeInvokeNext [] functions handler) s"
| "chain rt handler ReadByte functions s = readByte rt (MaybeInvokeNext [] functions handler) s"

definition performHandshake :: "runtime \<Rightarrow> session \<Rightarrow> session" where
  "performHandshake rt s = readString rt HandshakeCont s"

definition getLoginStatus :: "runtime \<Rightarrow> session \<Rightarrow> session" where
  "getLoginStatus rt s = readByte rt LoginStatusCont s"

text \<open>\<open>popAndInvokeHandler\<close>. With nothing waiting, \<open>handler.call\<close> is a TypeError
  and the session stays as it is.\<close>

definition popAndInvokeHandler :: "runtime \<Rightarrow> jsval \<Rightarrow> session \<Rightarrow> session" where
  "popAndInvokeHandler rt arg s =
     (case waiting s of
        Some (reader, handler) \<Rightarrow> call_cont rt handler arg (s\<lparr>waiting := None\<rparr>)
      | None \<Rightarrow> s)"

text \<open>\<open>handleData\<close>. Here the test is \<open>string !== null\<close>.\<close>

definition handleData :: "runtime \<Rightarrow> byte list \<Rightarrow> session \<Rightarrow> session" where
  "handleData rt data s =
     (let s1 = s\<lparr>buffers := buffers s @ [data]\<rparr> in
      case waiting s1 of
        Some (ReadString, handler) \<Rightarrow>
          (case getStringFromBuffers rt s1 of
             (Some string, s2) \<Rightarrow> popAndInvokeHandler rt (JStr string) s2
           | (None, s2) \<Rightarrow> s2)
      | Some (ReadByte, handler) \<Rightarrow>
          (case getByteFromBuffers s1 of
             Some (byte, s2) \<Rightarrow> popAndInvokeHandler rt byte s2
           | None \<Rightarrow> s1)
      | None \<Rightarrow> s1)"

subsection \<open>Events\<close>

text \<open>
  What reaches the session: the socket's \<open>connect\<close>, \<open>data\<close> and \<open>end\<close>, the socket
  calling the callback of the oldest write (\<open>WriteDone\<close>), and a caller's
  \<open>execute(query, handler)\<close>, with or without a handler.
\<close>

datatype event =
    Connect
  | Data "byte list"
  | End
  | WriteDone
  | Execute string "handler option"

fun run_write_cb :: "runtime \<Rightarrow> write_cb \<Rightarrow> session \<Rightarrow> session" where
  "run_write_cb rt GetLoginStatus s = getLoginStatus rt s"
| "run_write_cb rt (StartChain query handler) s =
     chain rt (InvokeHandler query handler) ReadString [ReadString, ReadByte] s"

fun step :: "runtime \<Rightarrow> event \<Rightarrow> session \<Rightarrow> session" where
  "step rt Connect s = performHandshake rt s"
| "step rt (Data data) s = handleData rt data s"
| "step rt End s = s\<lparr>busy := True\<rparr>"
| "step rt WriteDone s =
     (case writeCallbacks s of
        [] \<Rightarrow> s
      | handler # others \<Rightarrow> run_write_cb rt handler (s\<lparr>writeCallbacks := others\<rparr>))"
| "step rt (Execute query handler) s = execute rt query handler s"

definition run :: "runtime \<Rightarrow> event list \<Rightarrow> session \<Rightarrow> session" where
  "run rt events s = fold (step rt) events s"

section \<open>The decoder as a function of the bytes\<close>

text \<open>
  The loops of the decoder change four fields of the session. To say what they compute,
  the same computation is written on the bytes alone, and proved equal to the loops
  (\<open>scanBuffer_unescape\<close>, \<open>getStringFromBuffers_unescape\<close>).

  \<open>push_store sb off b\<close> is the string buffer after \<open>pushToStringBuffer\<close>, and
  \<open>stored sb off p\<close> the string buffer after pushing the bytes \<open>p\<close> one after the other.
\<close>

definition push_store :: "byte list \<Rightarrow> nat \<Rightarrow> byte \<Rightarrow> byte list" where
  "push_store sb off b =
     (if length sb = off then take (off * 2) sb @ replicate (off * 2 - length sb) 0 else sb)[off := b]"

fun stored :: "byte list \<Rightarrow> nat \<Rightarrow> byte list \<Rightarrow> byte list" where
  "stored sb off [] = sb"
| "stored sb off (b # bs) = stored (push_store sb off b) (off + 1) bs"

text \<open>\<open>unescape e buffer\<close> reads one buffer with the escape flag \<open>e\<close>: the bytes pushed,
  the flag at the end, and the bytes after the terminator if there is one.
  \<open>unescape_chain\<close> does the same over the chain of buffers, and gives the chain that
  is left.\<close>

fun unescape :: "bool \<Rightarrow> byte list \<Rightarrow> byte list \<times> bool \<times> byte list option" where
  "unescape e [] = ([], e, None)"
| "unescape e (b # bs) =
     (if e then (case unescape False bs of (p, r) \<Rightarrow> (b # p, r))
      else if b = 0xff then unescape True bs
      else if b = 0x00 then ([], False, Some bs)
      else (case unescape False bs of (p, r) \<Rightarrow> (b # p, r)))"

fun unescape_chain :: "bool \<Rightarrow> byte list list \<Rightarrow> byte list \<times> bool \<times> byte list list option" where
  "unescape_chain e [] = ([], e, None)"
| "unescape_chain e (buffer # others) =
     (case unescape e buffer of
        (p, e', Some rest) \<Rightarrow> (p, e', Some (if rest \<noteq> [] then rest # others else others))
      | (p, e', None) \<Rightarrow> (case unescape_chain e' others of (p', r) \<Rightarrow> (p @ p', r)))"

text \<open>The string returned once \<open>p\<close> has been pushed, and the session with \<open>p\<close> pushed.\<close>

definition decoded :: "runtime \<Rightarrow> session \<Rightarrow> byte list \<Rightarrow> string" where
  "decoded rt s p = utf8_toString rt
     (take (stringBufferOffset s + length p) (stored (stringBuffer s) (stringBufferOffset s) p))"

definition accumulated :: "byte list \<Rightarrow> session \<Rightarrow> session" where
  "accumulated p s = s\<lparr>stringBuffer := stored (stringBuffer s) (stringBufferOffset s) p,
      stringBufferOffset := stringBufferOffset s + length p\<rparr>"

text \<open>
  The other end of the wire. The header of index.js describes the protocol: strings end
  with a zero byte, and the escape byte \<open>0xff\<close> makes the next byte part of the string.
  \<open>wire_string bs\<close> is a string with the bytes \<open>bs\<close> as the server sends it.
\<close>

fun escape :: "byte list \<Rightarrow> byte list" where
  "escape [] = []"
| "escape (b # bs) = (if b = 0x00 \<or> b = 0xff then [0xff, b] else [b]) @ escape bs"

definition wire_string :: "byte list \<Rightarrow> byte list" where
  "wire_string bs = escape bs @ [0x00]"

section \<open>Commands in flight and their replies\<close>

text \<open>The thunk \<open>execute(query, handler)\<close> puts on the queue while the session is busy:
  \<open>handler || this.defaultHandler\<close> is settled before the call is bound.\<close>

fun thunk :: "string \<times> handler option \<Rightarrow> string \<times> handler" where
  "thunk (query, Some handler) = (query, handler)"
| "thunk (query, None) = (query, DefaultHandler)"

text \<open>
  A command is in flight: \<open>execute\<close> has marked the session busy and written the
  command, the socket has called back, and \<open>chain\<close> has registered the first read of
  the reply, with nothing buffered and the decoder at the start of a string.
\<close>

definition awaiting_reply :: "string \<Rightarrow> handler \<Rightarrow> session \<Rightarrow> bool" where
  "awaiting_reply query handler s \<longleftrightarrow>
     busy s
     \<and> waiting s = Some (ReadString,
           MaybeInvokeNext [] [ReadString, ReadByte] (InvokeHandler query handler))
     \<and> buffers s = [] \<and> writeCallbacks s = []
     \<and> \<not> inEscape s \<and> stringBufferOffset s = 0 \<and> 0 < length (stringBuffer s)"

text \<open>What \<open>handler.call(this, result, info)\<close> adds to the trace.\<close>

fun handler_effect :: "handler \<Rightarrow> jsval \<Rightarrow> jsval \<Rightarrow> effect" where
  "handler_effect DefaultHandler result info = Emitted ''result'' (ResultObj result info JUndefined)"
| "handler_effect (Callback n) result info = Called n result info"

text \<open>A reply with the status byte 0, one data event for each of its three parts; and
  what the handler of \<open>command\<close> adds to the trace when this reply completes it.\<close>

definition reply_events :: "byte list \<times> byte list \<Rightarrow> event list" where
  "reply_events reply = [Data (wire_string (fst reply)), Data (wire_string (snd reply)), Data [0]]"

definition completed :: "runtime \<Rightarrow> string \<times> handler \<Rightarrow> byte list \<times> byte list \<Rightarrow> effect" where
  "completed rt command reply =
     handler_effect (snd command)
       (JStr (utf8_toString rt (fst reply))) (JStr (utf8_toString rt (snd reply)))"

text \<open>\<open>execute\<close> called once for each of \<open>calls\<close>, in this order; the bytes of the
  login, as \<open>performHandshake\<close> writes them for the nonce received; and what a list of
  commands adds to the trace when each is written and then completed by its reply.\<close>

definition executes :: "(string \<times> handler option) list \<Rightarrow> event list" where
  "executes calls = map (\<lambda>(query, handler). Execute query handler) calls"

definition login_bytes :: "runtime \<Rightarrow> session_options \<Rightarrow> byte list \<Rightarrow> byte list" where
  "login_bytes rt opts nonce =
     utf8_bytes rt (option_user opts) @ [0]
     @ utf8_bytes rt (md5_hex rt (md5_hex rt (option_password opts) @ utf8_toString rt nonce))
     @ [0]"

definition commands_run ::
  "runtime \<Rightarrow> (string \<times> handler) list \<Rightarrow> (byte list \<times> byte list) list \<Rightarrow> effect list" where
  "commands_run rt commands replies =
     concat (map (\<lambda>(command, reply).
                    [Wrote (utf8_bytes rt (fst command) @ [0]), completed rt command reply])
                 (zip commands replies))"

text \<open>The session is free and has nothing left to do.\<close>

definition drained :: "session \<Rightarrow> bool" where
  "drained s \<longleftrightarrow> \<not> busy s \<and> queue s = [] \<and> waiting s = None \<and> writeCallbacks s = []"

section \<open>Sessions and a runtime for the examples\<close>

text \<open>
  Closed examples need a runtime to compute with. This one knows the characters of
  \<open>string\<close>, U+0000 to U+00FF: its UTF-8 is the real one there (one byte below
  U+0080, two bytes from there on), and decoding puts \<open>?\<close> for every byte sequence that
  is not one of these. The digest is symbolic (\<open>md5(...)\<close>), and \<open>str == 0\<close> holds of the
  empty string and of \<open>0\<close>; no example depends on either.
\<close>

definition example_utf8_bytes :: "string \<Rightarrow> byte list" where
  "example_utf8_bytes str =
     concat (map (\<lambda>c. let n = (of_char c :: nat) in
                      if n < 128 then [of_nat n]
                      else [of_nat (192 + n div 64), of_nat (128 + n mod 64)]) str)"

fun example_utf8_toString :: "byte list \<Rightarrow> string" where
  "example_utf8_toString [] = []"
| "example_utf8_toString [b] =
     (if unat b < 128 then [char_of (unat b)] else ''?'')"
| "example_utf8_toString (b # b2 # bs) =
     (if unat b < 128 then char_of (unat b) # example_utf8_toString (b2 # bs)
      else if (unat b = 194 \<or> unat b = 195) \<and> 128 \<le> unat b2 \<and> unat b2 < 192
      then char_of ((unat b - 192) * 64 + (unat b2 - 128)) # example_utf8_toString bs
      else CHR ''?'' # example_utf8_toString (b2 # bs))"

definition example_runtime :: runtime where
  "example_runtime =
     \<lparr>utf8_bytes = example_utf8_bytes,
      utf8_toString = example_utf8_toString,
      md5_hex = (\<lambda>str. ''md5('' @ str @ '')''),
      string_eq_zero = (\<lambda>str. str = [] \<or> str = ''0'')\<rparr>"

text \<open>
  A session for the examples: a string buffer of two bytes, so that both branches of
  \<open>pushToStringBuffer\<close> run; and the same session after the handshake, with the nonce
  \<open>abc123\<close> and the login accepted.
\<close>

definition example_session :: session where
  "example_session = Session (Some (no_options\<lparr>opt_initialStringBufferSize := Some 2\<rparr>))"

definition logged_in_session :: session where
  "logged_in_session =
     run example_runtime
       [Connect, Data (example_utf8_bytes ''abc123'' @ [0]), WriteDone, Data [0]] example_session"

text \<open>
  The session of the examples with a command in flight; after the reply
  \<open><foo/>\<close>, empty info, status 0 in one fragment, arriving after the socket's callback
  of the write or before it; and after the socket's \<open>end\<close> followed by an \<open>execute\<close>.
\<close>

definition example_empty_info :: session where
  "example_empty_info =
     run example_runtime
       [Execute ''xquery <foo/>'' (Some (Callback 1)), WriteDone,
        Data (example_utf8_bytes ''<foo/>'' @ [0, 0, 0])] logged_in_session"

definition example_empty_info_early :: session where
  "example_empty_info_early =
     run example_runtime
       [Execute ''xquery <foo/>'' (Some (Callback 1)),
        Data (example_utf8_bytes ''<foo/>'' @ [0, 0, 0]), WriteDone] logged_in_session"

definition example_after_end :: session where
  "example_after_end =
     run example_runtime [End, Execute ''xquery 1'' (Some (Callback 1))] logged_in_session"


definition example_in_flight :: session where
  "example_in_flight =
     run example_runtime [Execute ''xquery 1 div 0'' (Some (Callback 1)), WriteDone]
       logged_in_session"

text \<open>
  The command in flight with another one queued behind it; and two replies with the
  status byte 1 that the session never reports: one with an empty info string, in one
  fragment, and one with an empty result that arrives before the socket's callback of
  the write.
\<close>

definition example_queued :: session where
  "example_queued = run example_runtime [Execute ''e'' None] example_in_flight"

definition example_error_empty_info :: session where
  "example_error_empty_info =
     run example_runtime [Data (example_utf8_bytes ''r'' @ [0, 0, 1])] example_in_flight"

definition example_error_early :: session where
  "example_error_early =
     run example_runtime
       [Execute ''xquery 1 div 0'' (Some (Callback 1)),
        Data ([0] @ example_utf8_bytes ''Division by zero'' @ [0, 1]), WriteDone]
       logged_in_session"

section \<open>Properties of the decoder\<close>

lemma pushToStringBuffer_eq:
  "pushToStringBuffer b s = accumulated [b] s"
  by (simp add: pushToStringBuffer_def accumulated_def push_store_def Let_def)

lemma accumulated_Nil [simp]: "accumulated [] s = s"
  by (simp add: accumulated_def)

lemma stored_append:
  "stored sb off (p @ q) = stored (stored sb off p) (off + length p) q"
  by (induction p arbitrary: sb off) simp_all

lemma accumulated_append: "accumulated (p @ q) s = accumulated q (accumulated p s)"
  by (simp add: accumulated_def stored_append add.assoc)

lemma accumulated_fields [simp]:
  "inEscape (accumulated p s) = inEscape s"
  "buffers (accumulated p s) = buffers s"
  "waiting (accumulated p s) = waiting s"
  "busy (accumulated p s) = busy s"
  "queue (accumulated p s) = queue s"
  "writeCallbacks (accumulated p s) = writeCallbacks s"
  "trace (accumulated p s) = trace s"
  "options (accumulated p s) = options s"
  by (simp_all add: accumulated_def)

lemma accumulated_updates [simp]:
  "accumulated p (s\<lparr>inEscape := e\<rparr>) = (accumulated p s)\<lparr>inEscape := e\<rparr>"
  "accumulated p (s\<lparr>buffers := bs\<rparr>) = (accumulated p s)\<lparr>buffers := bs\<rparr>"
  "accumulated p (s\<lparr>waiting := w\<rparr>) = (accumulated p s)\<lparr>waiting := w\<rparr>"
  by (simp_all add: accumulated_def)

lemma decoded_updates [simp]:
  "decoded rt (s\<lparr>inEscape := e\<rparr>) p = decoded rt s p"
  "decoded rt (s\<lparr>buffers := bs\<rparr>) p = decoded rt s p"
  "decoded rt (s\<lparr>waiting := w\<rparr>) p = decoded rt s p"
  by (simp_all add: decoded_def)

lemma scanBuffer_unescape:
  "scanBuffer rt buffer s =
     (case unescape (inEscape s) buffer of
        (p, e, None) \<Rightarrow> (None, (accumulated p s)\<lparr>inEscape := e\<rparr>)
      | (p, e, Some rest) \<Rightarrow>
          (Some (decoded rt s p),
           (accumulated p s)\<lparr>inEscape := e, stringBufferOffset := 0,
              buffers := (if rest \<noteq> [] then rest # buffers s else buffers s)\<rparr>))"
proof (induction rt buffer s rule: scanBuffer.induct)
  case (1 rt s)
  show ?case by simp
next
  case (2 rt byte rest s)
  show ?case
  proof (cases "inEscape s")
    case True
    with 2(1) show ?thesis
      apply (simp add: pushToStringBuffer_eq split: prod.splits option.splits)
      apply (auto simp: accumulated_def decoded_def)
      done
  next
    case False
    show ?thesis
    proof (cases "byte = 0xff")
      case True
      with False 2(2) show ?thesis
        by (simp split: prod.splits option.splits)
    next
      case nff: False
      show ?thesis
      proof (cases "byte = 0")
        case True
        with False nff show ?thesis
          by (simp add: decoded_def Let_def)
      next
        case nz: False
        with False nff 2(3) show ?thesis
          apply (simp add: pushToStringBuffer_eq split: prod.splits option.splits)
          apply (auto simp: accumulated_def decoded_def)
          done
      qed
    qed
  qed
qed

lemma getStringFromBuffers_unescape:
  "getStringFromBuffers rt s =
     (case unescape_chain (inEscape s) (buffers s) of
        (p, e, None) \<Rightarrow> (None, (accumulated p s)\<lparr>inEscape := e, buffers := []\<rparr>)
      | (p, e, Some remaining) \<Rightarrow>
          (Some (decoded rt s p),
           (accumulated p s)\<lparr>inEscape := e, stringBufferOffset := 0, buffers := remaining\<rparr>))"
proof (induction rt s rule: getStringFromBuffers.induct)
  case (1 rt s)
  show ?case
  proof (cases "buffers s")
    case Nil
    then show ?thesis
      by (simp add: getStringFromBuffers.simps [of rt s])
  next
    case (Cons buffer others)
    obtain p e r where u: "unescape (inEscape s) buffer = (p, e, r)"
      by (cases "unescape (inEscape s) buffer") auto
    show ?thesis
    proof (cases r)
      case (Some rest)
      with Cons u show ?thesis
        by (simp add: getStringFromBuffers.simps [of rt s] scanBuffer_unescape)
    next
      case None
      let ?s' = "(accumulated p (s\<lparr>buffers := others\<rparr>))\<lparr>inEscape := e\<rparr>"
      have sc: "scanBuffer rt buffer (s\<lparr>buffers := others\<rparr>) = (None, ?s')"
        using u None by (simp add: scanBuffer_unescape)
      have ih: "getStringFromBuffers rt ?s' =
          (case unescape_chain (inEscape ?s') (buffers ?s') of
            (p, e, None) \<Rightarrow> (None, (accumulated p ?s')\<lparr>inEscape := e, buffers := []\<rparr>)
          | (p, e, Some remaining) \<Rightarrow>
              (Some (decoded rt ?s' p),
               (accumulated p ?s')\<lparr>inEscape := e, stringBufferOffset := 0, buffers := remaining\<rparr>))"
        using 1 [OF Cons sc [symmetric] refl] .
      have g: "getStringFromBuffers rt s = getStringFromBuffers rt ?s'"
        using Cons sc by (simp add: getStringFromBuffers.simps [of rt s])
      show ?thesis
        unfolding g ih using Cons u None
        apply (simp split: prod.splits option.splits)
        apply (auto simp: accumulated_def decoded_def stored_append add.assoc)
        done
    qed
  qed
qed

lemma length_push_store:
  "0 < length sb \<Longrightarrow> off \<le> length sb \<Longrightarrow> off < length (push_store sb off b)"
  by (auto simp: push_store_def)

lemma take_push_store:
  "0 < length sb \<Longrightarrow> off \<le> length sb \<Longrightarrow>
     take (Suc off) (push_store sb off b) = take off sb @ [b]"
  by (auto simp: push_store_def take_Suc_conv_app_nth)

lemma stored_ok:
  "0 < length sb \<Longrightarrow> off \<le> length sb \<Longrightarrow>
     take (off + length p) (stored sb off p) = take off sb @ p
     \<and> off + length p \<le> length (stored sb off p)"
proof (induction p arbitrary: sb off)
  case Nil
  then show ?case by simp
next
  case (Cons b p)
  have l: "off < length (push_store sb off b)"
    using Cons.prems by (rule length_push_store)
  have "take (Suc off + length p) (stored (push_store sb off b) (Suc off) p)
          = take (Suc off) (push_store sb off b) @ p
        \<and> Suc off + length p \<le> length (stored (push_store sb off b) (Suc off) p)"
    using l by (intro Cons.IH) auto
  then show ?case
    using Cons.prems by (simp add: take_push_store)
qed

lemma decoded_ok:
  "0 < length (stringBuffer s) \<Longrightarrow> stringBufferOffset s \<le> length (stringBuffer s) \<Longrightarrow>
     decoded rt s p = utf8_toString rt (take (stringBufferOffset s) (stringBuffer s) @ p)"
  by (simp add: decoded_def stored_ok)

lemma unescape_escape:
  "unescape False (escape bs @ 0 # tail) = (bs, False, Some tail)"
  by (induction bs) simp_all

lemma unescape_escape_only:
  "unescape False (escape bs) = (bs, False, None)"
  by (induction bs) simp_all

lemma unescape_wire_string:
  "unescape False (wire_string bs @ tail) = (bs, False, Some tail)"
  by (simp add: wire_string_def unescape_escape)

lemma unescape_append:
  "unescape e (xs @ ys) =
     (case unescape e xs of
        (p, e', Some rest) \<Rightarrow> (p, e', Some (rest @ ys))
      | (p, e', None) \<Rightarrow> (case unescape e' ys of (p', r) \<Rightarrow> (p @ p', r)))"
  by (induction e xs rule: unescape.induct) (auto split: prod.splits option.splits)

lemma unescape_chain_concat:
  "unescape e (concat bufs) =
     (case unescape_chain e bufs of (p, e', r) \<Rightarrow> (p, e', map_option concat r))"
  by (induction bufs arbitrary: e)
     (auto simp: unescape_append split: prod.splits option.splits)

section \<open>Properties of writing, reading and data events\<close>

lemma writeStrings_fill_concat:
  "writeStrings_fill rt strs (pre @ replicate (writeStrings_size rt strs) 0) (length pre)
     = pre @ concat (map (\<lambda>str. utf8_bytes rt str @ [0]) strs)"
proof (induction strs arbitrary: pre)
  case Nil
  show ?case by simp
next
  case (Cons str strs)
  let ?bs = "utf8_bytes rt str"
  let ?n = "writeStrings_size rt strs"
  let ?buffer = "pre @ replicate (writeStrings_size rt (str # strs)) 0"
  have w: "buffer_write rt ?buffer str (length pre) = (pre @ ?bs @ replicate (Suc ?n) 0, length ?bs)"
    by (simp add: buffer_write_def Let_def replicate_add [symmetric] del: replicate_Suc)
  have u: "(pre @ ?bs @ replicate (Suc ?n) 0)[length pre + length ?bs := 0]
             = (pre @ ?bs @ [0]) @ replicate ?n 0"
    by (simp add: list_update_append)
  have "writeStrings_fill rt (str # strs) ?buffer (length pre)
          = writeStrings_fill rt strs ((pre @ ?bs @ [0]) @ replicate ?n 0) (length (pre @ ?bs @ [0]))"
    using w u by (simp del: replicate_Suc append_assoc)
  also have "\<dots> = (pre @ ?bs @ [0]) @ concat (map (\<lambda>str. utf8_bytes rt str @ [0]) strs)"
    by (rule Cons.IH)
  finally show ?case by simp
qed

lemma writeStrings_eq:
  "writeStrings rt strs handler s =
     s\<lparr>writeCallbacks := writeCallbacks s @ [handler],
       trace := trace s @ [Wrote (concat (map (\<lambda>str. utf8_bytes rt str @ [0]) strs))]\<rparr>"
  using writeStrings_fill_concat [of rt strs "[]"] by (simp add: writeStrings_def)

lemma readString_unescape:
  "readString rt handler s =
     (case unescape_chain (inEscape s) (buffers s) of
        (p, e, Some remaining) \<Rightarrow>
          if decoded rt s p \<noteq> [] then
            call_cont rt handler (JStr (decoded rt s p))
              ((accumulated p s)\<lparr>inEscape := e, stringBufferOffset := 0, buffers := remaining\<rparr>)
          else
            (accumulated p s)\<lparr>inEscape := e, stringBufferOffset := 0, buffers := remaining,
              waiting := Some (ReadString, handler)\<rparr>
      | (p, e, None) \<Rightarrow>
          (accumulated p s)\<lparr>inEscape := e, buffers := [], waiting := Some (ReadString, handler)\<rparr>)"
  by (simp add: readString.simps [of rt handler s] getStringFromBuffers_unescape
      split: prod.splits option.splits)

lemma readString_empty:
  "buffers s = [] \<Longrightarrow> readString rt handler s = s\<lparr>waiting := Some (ReadString, handler)\<rparr>"
  by (simp add: readString_unescape)

lemma readByte_empty:
  "buffers s = [] \<Longrightarrow> readByte rt handler s = s\<lparr>waiting := Some (ReadByte, handler)\<rparr>"
  by (simp add: readByte.simps [of rt handler s])

lemma handleData_idle:
  "waiting s = None \<Longrightarrow> handleData rt data s = s\<lparr>buffers := buffers s @ [data]\<rparr>"
  by (simp add: handleData_def)

lemma handleData_string:
  "waiting s = Some (ReadString, handler) \<Longrightarrow> buffers s = [] \<Longrightarrow>
     handleData rt data s =
       (case unescape (inEscape s) data of
          (p, e, Some rest) \<Rightarrow>
            call_cont rt handler (JStr (decoded rt s p))
              ((accumulated p s)\<lparr>inEscape := e, stringBufferOffset := 0,
                 buffers := (if rest \<noteq> [] then [rest] else []), waiting := None\<rparr>)
        | (p, e, None) \<Rightarrow> (accumulated p s)\<lparr>inEscape := e, buffers := []\<rparr>)"
  by (simp add: handleData_def getStringFromBuffers_unescape popAndInvokeHandler_def
      split: prod.splits option.splits)

lemma handleData_byte:
  "waiting s = Some (ReadByte, handler) \<Longrightarrow> buffers s = [] \<Longrightarrow>
     handleData rt (b # rest) s =
       call_cont rt handler (JByte b)
         (s\<lparr>buffers := (if rest \<noteq> [] then [rest] else []), waiting := None\<rparr>)"
  by (cases rest) (simp_all add: handleData_def getByteFromBuffers_def popAndInvokeHandler_def)

lemma execute_busy:
  "busy s \<Longrightarrow> execute rt query handler s = s\<lparr>queue := thunk (query, handler) # queue s\<rparr>"
  by (cases handler) (simp_all add: execute_def)

lemma run_executes_busy:
  "busy s \<Longrightarrow>
     run rt (map (\<lambda>(query, handler). Execute query handler) calls) s
       = s\<lparr>queue := rev (map thunk calls) @ queue s\<rparr>"
proof (induction calls arbitrary: s)
  case Nil
  then show ?case by (simp add: run_def)
next
  case (Cons c calls)
  obtain query handler where c: "c = (query, handler)" by (cases c)
  have "run rt (map (\<lambda>(query, handler). Execute query handler) (c # calls)) s
        = run rt (map (\<lambda>(query, handler). Execute query handler) calls)
            (s\<lparr>queue := thunk c # queue s\<rparr>)"
    using Cons.prems c by (simp add: run_def execute_busy)
  also have "\<dots> = s\<lparr>queue := rev (map thunk (c # calls)) @ queue s\<rparr>"
    using Cons.prems by (subst Cons.IH) simp_all
  finally show ?case .
qed

lemma fold_handleData_partial:
  "waiting s = Some (ReadString, handler) \<Longrightarrow> buffers s = [] \<Longrightarrow>
   unescape (inEscape s) (concat frags) = (p, e, None) \<Longrightarrow>
     fold (handleData rt) frags s = (accumulated p s)\<lparr>inEscape := e, buffers := []\<rparr>"
proof (induction frags arbitrary: s p)
  case Nil
  then show ?case by simp
next
  case (Cons f frags)
  obtain p1 e1 r1 where u1: "unescape (inEscape s) f = (p1, e1, r1)"
    by (cases "unescape (inEscape s) f") auto
  from Cons.prems(3) u1 have r1: "r1 = None"
    by (cases r1) (simp_all add: unescape_append)
  obtain p2 where u2: "unescape e1 (concat frags) = (p2, e, None)" and p: "p = p1 @ p2"
    using Cons.prems(3) u1 r1 by (auto simp: unescape_append split: prod.splits)
  let ?s1 = "(accumulated p1 s)\<lparr>inEscape := e1, buffers := []\<rparr>"
  have h: "handleData rt f s = ?s1"
    using Cons.prems(1,2) u1 r1 by (simp add: handleData_string)
  have "fold (handleData rt) frags ?s1 = (accumulated p2 ?s1)\<lparr>inEscape := e, buffers := []\<rparr>"
    using Cons.prems(1) u2 by (intro Cons.IH) simp_all
  then show ?case
    using h p by (simp add: accumulated_append)
qed

lemma run_Data: "run rt (map Data frags) s = fold (handleData rt) frags s"
  by (induction frags arbitrary: s) (simp_all add: run_def)

lemma run_append: "run rt (xs @ ys) s = run rt ys (run rt xs s)"
  by (simp add: run_def)

lemma decoded_accumulated:
  "decoded rt (accumulated p s) q = decoded rt s (p @ q)"
  by (simp add: decoded_def accumulated_def stored_append add.assoc)

lemma readByte_first_chunk:
  "buffers s = first # others \<Longrightarrow>
     readByte rt handler s =
       call_cont rt handler (case first of [] \<Rightarrow> JUndefined | byte # _ \<Rightarrow> JByte byte)
         (s\<lparr>buffers := (if length first > 1 then drop 1 first # others else others)\<rparr>)"
  by (simp add: readByte.simps [of rt handler s] getByteFromBuffers_def)

lemma stored_length_pos:
  "0 < length sb \<Longrightarrow> off \<le> length sb \<Longrightarrow> 0 < length (stored sb off p)"
  using stored_ok [of sb off p] by (cases p) auto

lemma stored_not_Nil:
  "sb \<noteq> [] \<Longrightarrow> stored sb 0 p \<noteq> []"
  using stored_length_pos [of sb 0 p] by simp

lemma handleData_string_fresh:
  assumes w: "waiting s = Some (ReadString, handler)"
    and b: "buffers s = []" and e: "\<not> inEscape s" and off: "stringBufferOffset s = 0"
    and len: "0 < length (stringBuffer s)"
  shows "handleData rt (wire_string bs @ rest) s
     = call_cont rt handler (JStr (utf8_toString rt bs))
         (s\<lparr>stringBuffer := stored (stringBuffer s) 0 bs,
            buffers := (if rest \<noteq> [] then [rest] else []), waiting := None\<rparr>)"
proof -
  have d: "decoded rt s bs = utf8_toString rt bs"
    using off len by (simp add: decoded_ok)
  have "handleData rt (wire_string bs @ rest) s
     = call_cont rt handler (JStr (decoded rt s bs))
         ((accumulated bs s)\<lparr>inEscape := False, stringBufferOffset := 0,
            buffers := (if rest \<noteq> [] then [rest] else []), waiting := None\<rparr>)"
    using w b e unescape_wire_string [of bs rest] by (simp add: handleData_string)
  moreover have "(accumulated bs s)\<lparr>inEscape := False, stringBufferOffset := 0,
            buffers := (if rest \<noteq> [] then [rest] else []), waiting := None\<rparr>
     = s\<lparr>stringBuffer := stored (stringBuffer s) 0 bs,
          buffers := (if rest \<noteq> [] then [rest] else []), waiting := None\<rparr>"
    using e off by (simp add: accumulated_def)
  ultimately show ?thesis
    using d by simp
qed

lemma readString_fresh:
  assumes b: "buffers s = (wire_string bs @ rest) # others"
    and e: "\<not> inEscape s" and off: "stringBufferOffset s = 0"
    and len: "0 < length (stringBuffer s)"
  shows "readString rt handler s
     = (if utf8_toString rt bs \<noteq> [] then
          call_cont rt handler (JStr (utf8_toString rt bs))
            (s\<lparr>stringBuffer := stored (stringBuffer s) 0 bs,
               buffers := (if rest \<noteq> [] then rest # others else others)\<rparr>)
        else
          s\<lparr>stringBuffer := stored (stringBuffer s) 0 bs,
            buffers := (if rest \<noteq> [] then rest # others else others),
            waiting := Some (ReadString, handler)\<rparr>)"
proof -
  have d: "decoded rt s bs = utf8_toString rt bs"
    using off len by (simp add: decoded_ok)
  have u: "unescape_chain (inEscape s) (buffers s)
             = (bs, False, Some (if rest \<noteq> [] then rest # others else others))"
    using b e unescape_wire_string [of bs rest] by simp
  have 1: "(accumulated bs s)\<lparr>inEscape := False, stringBufferOffset := 0,
               buffers := (if rest \<noteq> [] then rest # others else others)\<rparr>
     = s\<lparr>stringBuffer := stored (stringBuffer s) 0 bs,
          buffers := (if rest \<noteq> [] then rest # others else others)\<rparr>"
    using e off by (simp add: accumulated_def)
  have 2: "(accumulated bs s)\<lparr>inEscape := False, stringBufferOffset := 0,
               buffers := (if rest \<noteq> [] then rest # others else others),
               waiting := Some (ReadString, handler)\<rparr>
     = s\<lparr>stringBuffer := stored (stringBuffer s) 0 bs,
          buffers := (if rest \<noteq> [] then rest # others else others),
          waiting := Some (ReadString, handler)\<rparr>"
    using e off by (simp add: accumulated_def)
  show ?thesis
    unfolding readString_unescape [of rt handler s] u d prod.case option.case 1 2 ..
qed

lemma reply_in_three_fragments:
  assumes a: "awaiting_reply query handler s"
  shows "run rt [Data (wire_string result), Data (wire_string info), Data [status]] s
     = invokeHandler rt query handler
         (JStr (utf8_toString rt result)) (JStr (utf8_toString rt info)) (JByte status)
         (s\<lparr>stringBuffer := stored (stored (stringBuffer s) 0 result) 0 info,
            waiting := None\<rparr>)"
proof -
  let ?fin = "InvokeHandler query handler"
  let ?r = "JStr (utf8_toString rt result)"
  let ?i = "JStr (utf8_toString rt info)"
  from a have w: "waiting s = Some (ReadString, MaybeInvokeNext [] [ReadString, ReadByte] ?fin)"
    and b: "buffers s = []" and e: "\<not> inEscape s" and off: "stringBufferOffset s = 0"
    and len: "0 < length (stringBuffer s)"
    by (simp_all add: awaiting_reply_def)
  let ?s1 = "s\<lparr>stringBuffer := stored (stringBuffer s) 0 result,
               waiting := Some (ReadString, MaybeInvokeNext [?r] [ReadByte] ?fin)\<rparr>"
  have 1: "handleData rt (wire_string result) s = ?s1"
    using handleData_string_fresh [OF w b e off len, of rt result "[]"] b
    by (simp add: readString_empty)
  have len1: "0 < length (stringBuffer ?s1)"
    using stored_length_pos [of "stringBuffer s" 0 result] len by simp
  let ?s2 = "s\<lparr>stringBuffer := stored (stored (stringBuffer s) 0 result) 0 info,
               waiting := Some (ReadByte, MaybeInvokeNext [?r, ?i] [] ?fin)\<rparr>"
  have 2: "handleData rt (wire_string info) ?s1 = ?s2"
    using handleData_string_fresh [of ?s1 _ rt info "[]"] b e off len1
    by (simp add: readByte_empty)
  have 3: "handleData rt [status] ?s2
     = invokeHandler rt query handler ?r ?i (JByte status)
         (s\<lparr>stringBuffer := stored (stored (stringBuffer s) 0 result) 0 info,
            waiting := None\<rparr>)"
    using b by (cases s) (simp add: handleData_byte arg_at_def)
  show ?thesis
    by (simp add: run_def 1 2 3)
qed

lemma reply_in_one_fragment:
  assumes a: "awaiting_reply query handler s"
    and i: "utf8_toString rt info \<noteq> []"
  shows "run rt [Data (wire_string result @ wire_string info @ [status])] s
     = invokeHandler rt query handler
         (JStr (utf8_toString rt result)) (JStr (utf8_toString rt info)) (JByte status)
         (s\<lparr>stringBuffer := stored (stored (stringBuffer s) 0 result) 0 info,
            waiting := None\<rparr>)"
proof -
  let ?fin = "InvokeHandler query handler"
  let ?r = "JStr (utf8_toString rt result)"
  let ?i = "JStr (utf8_toString rt info)"
  from a have w: "waiting s = Some (ReadString, MaybeInvokeNext [] [ReadString, ReadByte] ?fin)"
    and b: "buffers s = []" and e: "\<not> inEscape s" and off: "stringBufferOffset s = 0"
    and len: "0 < length (stringBuffer s)"
    by (simp_all add: awaiting_reply_def)
  let ?sA = "s\<lparr>stringBuffer := stored (stringBuffer s) 0 result,
               buffers := [wire_string info @ [status]], waiting := None\<rparr>"
  have 1: "handleData rt (wire_string result @ wire_string info @ [status]) s
            = readString rt (MaybeInvokeNext [?r] [ReadByte] ?fin) ?sA"
    using handleData_string_fresh [OF w b e off len, of rt result "wire_string info @ [status]"]
    by simp
  have lenA: "0 < length (stringBuffer ?sA)"
    using stored_length_pos [of "stringBuffer s" 0 result] len by simp
  let ?sB = "s\<lparr>stringBuffer := stored (stored (stringBuffer s) 0 result) 0 info,
               buffers := [[status]], waiting := None\<rparr>"
  have 2: "readString rt (MaybeInvokeNext [?r] [ReadByte] ?fin) ?sA
            = readByte rt (MaybeInvokeNext [?r, ?i] [] ?fin) ?sB"
    using readString_fresh [of ?sA info "[status]" "[]" rt] i e off lenA
    by (cases s) simp
  have 3: "readByte rt (MaybeInvokeNext [?r, ?i] [] ?fin) ?sB
     = invokeHandler rt query handler ?r ?i (JByte status)
         (s\<lparr>stringBuffer := stored (stored (stringBuffer s) 0 result) 0 info,
            waiting := None\<rparr>)"
    using b by (cases s) (simp add: readByte.simps getByteFromBuffers_def arg_at_def)
  show ?thesis
    by (simp add: run_def 1 2 3)
qed

lemma call_handler_eq:
  "call_handler handler result info s = s\<lparr>trace := trace s @ [handler_effect handler result info]\<rparr>"
  by (cases handler) (simp_all add: defaultHandler_def emit_def)

lemma checkQueue_empty:
  "queue s = [] \<Longrightarrow> checkQueue rt s = s\<lparr>busy := False\<rparr>"
  by (simp add: checkQueue_def)

lemma last_reply:
  assumes a: "awaiting_reply query handler s" and q: "queue s = []"
  shows "run rt (reply_events reply) s
     = s\<lparr>stringBuffer := stored (stored (stringBuffer s) 0 (fst reply)) 0 (snd reply),
          waiting := None, busy := False,
          trace := trace s @ [completed rt (query, handler) reply]\<rparr>"
  using q
  by (simp add: reply_events_def reply_in_three_fragments [OF a] invokeHandler_def
        call_handler_eq checkQueue_empty completed_def)

lemma next_reply:
  assumes a: "awaiting_reply query handler s" and q: "queue s = older @ [(query', handler')]"
  shows "run rt (reply_events reply @ [WriteDone]) s
     = s\<lparr>stringBuffer := stored (stored (stringBuffer s) 0 (fst reply)) 0 (snd reply),
          waiting := Some (ReadString,
            MaybeInvokeNext [] [ReadString, ReadByte] (InvokeHandler query' handler')),
          queue := older,
          trace := trace s @ [completed rt (query, handler) reply,
                              Wrote (utf8_bytes rt query' @ [0])]\<rparr>"
proof -
  from a have b: "buffers s = []" and wc: "writeCallbacks s = []" and bz: "busy s"
    by (simp_all add: awaiting_reply_def)
  let ?s1 = "s\<lparr>stringBuffer := stored (stored (stringBuffer s) 0 (fst reply)) 0 (snd reply),
          waiting := None, queue := older,
          writeCallbacks := [StartChain query' handler'],
          trace := trace s @ [completed rt (query, handler) reply,
                              Wrote (utf8_bytes rt query' @ [0])]\<rparr>"
  have "run rt (reply_events reply) s
     = checkQueue rt
         (call_handler handler (JStr (utf8_toString rt (fst reply)))
            (JStr (utf8_toString rt (snd reply)))
            (s\<lparr>stringBuffer := stored (stored (stringBuffer s) 0 (fst reply)) 0 (snd reply),
               waiting := None\<rparr>))"
    by (simp add: reply_events_def reply_in_three_fragments [OF a] invokeHandler_def)
  also have "\<dots> = ?s1"
    using q wc bz
    by (cases s)
       (simp add: call_handler_eq checkQueue_def execute_def writeStrings_eq completed_def)
  finally have 1: "run rt (reply_events reply) s = ?s1" .
  have 2: "step rt WriteDone ?s1
     = s\<lparr>stringBuffer := stored (stored (stringBuffer s) 0 (fst reply)) 0 (snd reply),
          waiting := Some (ReadString,
            MaybeInvokeNext [] [ReadString, ReadByte] (InvokeHandler query' handler')),
          queue := older,
          trace := trace s @ [completed rt (query, handler) reply,
                              Wrote (utf8_bytes rt query' @ [0])]\<rparr>"
    using b wc by (cases s) (simp add: readString_empty)
  show ?thesis
    using 1 2 by (simp add: run_append run_def)
qed

lemma drain_queue:
  assumes "awaiting_reply query handler s"
    and "queue s = rev commands"
    and "length replies = length commands"
  shows "trace (run rt (reply_events reply
                        @ concat (map (\<lambda>reply. WriteDone # reply_events reply) replies)) s)
           = trace s @ completed rt (query, handler) reply
               # concat (map (\<lambda>(command, reply).
                                [Wrote (utf8_bytes rt (fst command) @ [0]),
                                 completed rt command reply])
                            (zip commands replies))
         \<and> drained (run rt (reply_events reply
                        @ concat (map (\<lambda>reply. WriteDone # reply_events reply) replies)) s)"
  using assms
proof (induction commands arbitrary: s query handler reply replies)
  case Nil
  then show ?case
    by (simp add: last_reply drained_def awaiting_reply_def)
next
  case (Cons c commands)
  obtain query' handler' where c: "c = (query', handler')" by (cases c)
  obtain r rs where rs: "replies = r # rs" and l: "length rs = length commands"
    using Cons.prems(3) by (cases replies) auto
  let ?s1 = "s\<lparr>stringBuffer := stored (stored (stringBuffer s) 0 (fst reply)) 0 (snd reply),
          waiting := Some (ReadString,
            MaybeInvokeNext [] [ReadString, ReadByte] (InvokeHandler query' handler')),
          queue := rev commands,
          trace := trace s @ [completed rt (query, handler) reply,
                              Wrote (utf8_bytes rt query' @ [0])]\<rparr>"
  have q: "queue s = rev commands @ [(query', handler')]"
    using Cons.prems(2) c by simp
  have 1: "run rt (reply_events reply @ [WriteDone]) s = ?s1"
    using Cons.prems(1) q by (rule next_reply)
  have len: "0 < length (stored (stored (stringBuffer s) 0 (fst reply)) 0 (snd reply))"
    using Cons.prems(1) by (simp add: awaiting_reply_def stored_not_Nil)
  have a1: "awaiting_reply query' handler' ?s1"
    using Cons.prems(1) len by (simp add: awaiting_reply_def)
  have q1: "queue ?s1 = rev commands" by simp
  note ih = Cons.IH [OF a1 q1 l, of r]
  have e: "reply_events reply @ concat (map (\<lambda>reply. WriteDone # reply_events reply) replies)
        = (reply_events reply @ [WriteDone])
          @ (reply_events r @ concat (map (\<lambda>reply. WriteDone # reply_events reply) rs))"
    using rs by simp
  show ?case
    unfolding e run_append [of rt "reply_events reply @ [WriteDone]"] 1
    using ih c rs by simp
qed

lemma readString_loses_empty_string:
  assumes "buffers s = (0 # rest) # others"
    and "\<not> inEscape s" and "stringBufferOffset s = 0" and "0 < length (stringBuffer s)"
    and "utf8_toString rt [] = []"
  shows "readString rt handler s
     = s\<lparr>buffers := (if rest \<noteq> [] then rest # others else others),
          waiting := Some (ReadString, handler)\<rparr>"
proof -
  have b: "buffers s = (wire_string [] @ rest) # others"
    using assms(1) by (simp add: wire_string_def)
  show ?thesis
    using readString_fresh [OF b assms(2,3,4), of rt handler] assms(5)
    by (cases s) simp
qed

lemma run_executes:
  "busy s \<Longrightarrow> run rt (executes calls) s = s\<lparr>queue := rev (map thunk calls) @ queue s\<rparr>"
  unfolding executes_def by (rule run_executes_busy)

lemma drain_queue_commands:
  assumes "awaiting_reply query handler s"
    and "queue s = rev commands"
    and "length replies = length commands"
  shows "trace (run rt (reply_events reply
                        @ concat (map (\<lambda>reply. WriteDone # reply_events reply) replies)) s)
           = trace s @ completed rt (query, handler) reply # commands_run rt commands replies
         \<and> drained (run rt (reply_events reply
                        @ concat (map (\<lambda>reply. WriteDone # reply_events reply) replies)) s)"
  using drain_queue [OF assms] by (simp add: commands_run_def)

lemma login_accepted:
  assumes w: "waiting s = Some (ReadByte, LoginStatusCont)"
    and b: "buffers s = []" and wc: "writeCallbacks s = []"
    and e: "\<not> inEscape s" and off: "stringBufferOffset s = 0"
    and len: "0 < length (stringBuffer s)"
    and q: "queue s = rev commands"
    and l: "length replies = length commands"
  shows "trace (run rt (Data [0] # concat (map (\<lambda>reply. WriteDone # reply_events reply) replies)) s)
           = trace s @ take 1 (commands_run rt commands replies)
               @ Emitted ''loggedIn'' NoPayload # drop 1 (commands_run rt commands replies)
         \<and> drained (run rt (Data [0]
                # concat (map (\<lambda>reply. WriteDone # reply_events reply) replies)) s)"
proof (cases commands)
  case Nil
  then have r: "replies = []" using l by simp
  have "handleData rt [0] s = emit ''loggedIn'' NoPayload (checkQueue rt (s\<lparr>waiting := None\<rparr>))"
    using w b by (cases s) (simp add: handleData_byte)
  then show ?thesis
    using Nil r q wc by (simp add: run_def checkQueue_def emit_def drained_def commands_run_def)
next
  case (Cons c cs)
  obtain query handler where c: "c = (query, handler)" by (cases c)
  obtain r rs where rs: "replies = r # rs" and l': "length rs = length cs"
    using l Cons by (cases replies) auto
  let ?s1 = "s\<lparr>waiting := Some (ReadString,
                 MaybeInvokeNext [] [ReadString, ReadByte] (InvokeHandler query handler)),
               busy := True, queue := rev cs,
               trace := trace s @ [Wrote (utf8_bytes rt query @ [0]),
                                   Emitted ''loggedIn'' NoPayload]\<rparr>"
  have q': "queue s = rev cs @ [(query, handler)]"
    using q Cons c by simp
  have "handleData rt [0] s = emit ''loggedIn'' NoPayload (checkQueue rt (s\<lparr>waiting := None\<rparr>))"
    using w b by (cases s) (simp add: handleData_byte)
  then have 1: "handleData rt [0] s
      = s\<lparr>waiting := None, busy := True, queue := rev cs,
           writeCallbacks := [StartChain query handler],
           trace := trace s @ [Wrote (utf8_bytes rt query @ [0]),
                               Emitted ''loggedIn'' NoPayload]\<rparr>"
    using q' wc by (cases s) (simp add: checkQueue_def execute_def writeStrings_eq emit_def)
  have "step rt WriteDone
          (s\<lparr>waiting := None, busy := True, queue := rev cs,
             writeCallbacks := [StartChain query handler],
             trace := trace s @ [Wrote (utf8_bytes rt query @ [0]),
                                 Emitted ''loggedIn'' NoPayload]\<rparr>) = ?s1"
    using b wc by (cases s) (simp add: readString_empty)
  then have 2: "run rt [Data [0], WriteDone] s = ?s1"
    by (simp add: run_def 1)
  have a1: "awaiting_reply query handler ?s1"
    using b wc e off len by (simp add: awaiting_reply_def)
  have q1: "queue ?s1 = rev cs" by simp
  note d = drain_queue_commands [OF a1 q1 l', of rt r]
  have ev: "Data [0] # concat (map (\<lambda>reply. WriteDone # reply_events reply) replies)
        = [Data [0], WriteDone]
          @ (reply_events r @ concat (map (\<lambda>reply. WriteDone # reply_events reply) rs))"
    using rs by simp
  have cr: "commands_run rt commands replies
      = Wrote (utf8_bytes rt query @ [0]) # completed rt (query, handler) r
          # commands_run rt cs rs"
    using Cons c rs by (simp add: commands_run_def)
  show ?thesis
    unfolding ev run_append [of rt "[Data [0], WriteDone]"] 2 cr
    using d by simp
qed

lemma handshake_with_executes:
  assumes bz: "busy s" and w: "waiting s = None" and b: "buffers s = []"
    and q: "queue s = []" and wc: "writeCallbacks s = []" and tr: "trace s = []"
    and e: "\<not> inEscape s" and off: "stringBufferOffset s = 0"
    and len: "0 < length (stringBuffer s)"
  shows "run rt (executes calls0 @ [Connect] @ executes calls1 @ [Data (wire_string nonce)]
                 @ executes calls2 @ [WriteDone] @ executes calls3) s
     = s\<lparr>stringBuffer := stored (stringBuffer s) 0 nonce,
          waiting := Some (ReadByte, LoginStatusCont),
          queue := rev (map thunk (calls0 @ calls1 @ calls2 @ calls3)),
          trace := [Wrote (login_bytes rt (options s) nonce)]\<rparr>"
proof -
  let ?q0 = "rev (map thunk calls0)"
  let ?q1 = "rev (map thunk (calls0 @ calls1))"
  let ?q2 = "rev (map thunk (calls0 @ calls1 @ calls2))"
  let ?q3 = "rev (map thunk (calls0 @ calls1 @ calls2 @ calls3))"
  let ?s1 = "s\<lparr>queue := ?q0\<rparr>"
  let ?s2 = "s\<lparr>waiting := Some (ReadString, HandshakeCont), queue := ?q0\<rparr>"
  let ?s3 = "s\<lparr>waiting := Some (ReadString, HandshakeCont), queue := ?q1\<rparr>"
  let ?s4 = "s\<lparr>stringBuffer := stored (stringBuffer s) 0 nonce, queue := ?q1,
               writeCallbacks := [GetLoginStatus],
               trace := [Wrote (login_bytes rt (options s) nonce)]\<rparr>"
  let ?s5 = "s\<lparr>stringBuffer := stored (stringBuffer s) 0 nonce, queue := ?q2,
               writeCallbacks := [GetLoginStatus],
               trace := [Wrote (login_bytes rt (options s) nonce)]\<rparr>"
  let ?s6 = "s\<lparr>stringBuffer := stored (stringBuffer s) 0 nonce,
               waiting := Some (ReadByte, LoginStatusCont), queue := ?q2,
               trace := [Wrote (login_bytes rt (options s) nonce)]\<rparr>"
  let ?s7 = "s\<lparr>stringBuffer := stored (stringBuffer s) 0 nonce,
               waiting := Some (ReadByte, LoginStatusCont), queue := ?q3,
               trace := [Wrote (login_bytes rt (options s) nonce)]\<rparr>"
  have 1: "run rt (executes calls0) s = ?s1"
    using bz q by (simp add: run_executes)
  have 2: "step rt Connect ?s1 = ?s2"
    using b by (simp add: performHandshake_def readString_empty)
  have 3: "run rt (executes calls1) ?s2 = ?s3"
    using bz by (simp add: run_executes)
  have "handleData rt (wire_string nonce) ?s3
      = call_cont rt HandshakeCont (JStr (utf8_toString rt nonce))
          (?s3\<lparr>stringBuffer := stored (stringBuffer ?s3) 0 nonce,
               buffers := [], waiting := None\<rparr>)"
    using handleData_string_fresh [of ?s3 HandshakeCont rt nonce "[]"] b e off len by simp
  also have "\<dots> = ?s4"
    using w b wc tr by (cases s) (simp add: writeStrings_eq login_bytes_def)
  finally have 4: "step rt (Data (wire_string nonce)) ?s3 = ?s4" by simp
  have 5: "run rt (executes calls2) ?s4 = ?s5"
    using bz by (simp add: run_executes)
  have 6: "step rt WriteDone ?s5 = ?s6"
    using b wc by (cases s) (simp add: getLoginStatus_def readByte_empty)
  have 7: "run rt (executes calls3) ?s6 = ?s7"
    using bz by (simp add: run_executes)
  have c: "run rt [e] x = step rt e x" for e x
    by (simp add: run_def)
  show ?thesis
    by (simp only: run_append c 1 2 3 4 5 6 7)
qed

lemma nonzero_status_raises_error:
  assumes a: "awaiting_reply query handler s"
    and st: "status \<noteq> 0"
  shows "run rt [Data (wire_string result), Data (wire_string info), Data [status]] s
     = s\<lparr>stringBuffer := stored (stored (stringBuffer s) 0 result) 0 info,
          waiting := None,
          trace := trace s @ [Emitted ''error''
            (ErrorObj (''BaseX query failed\<newline>query: '' @ query @ ''\<newline>'' @ ''message: ''
                       @ utf8_toString rt info))]\<rparr>
   \<and> (utf8_toString rt info \<noteq> [] \<longrightarrow>
       run rt [Data (wire_string result @ wire_string info @ [status])] s
     = s\<lparr>stringBuffer := stored (stored (stringBuffer s) 0 result) 0 info,
          waiting := None,
          trace := trace s @ [Emitted ''error''
            (ErrorObj (''BaseX query failed\<newline>query: '' @ query @ ''\<newline>'' @ ''message: ''
                       @ utf8_toString rt info))]\<rparr>)"
  using st
  by (simp add: reply_in_three_fragments [OF a] reply_in_one_fragment [OF a]
        invokeHandler_def emit_def)

section \<open>The claims\<close>

subsection \<open>C1: a reply with an empty info string\<close>

text \<open>
  C1. The command \<open>xquery <foo/>\<close> is sent by a session that has logged in, and the
  server's reply arrives as one fragment: the result \<open><foo/>\<close>, an empty info string
  and the status byte 0. The claim is that the handler of the command is called with
  the result and the empty info. It is not. \<open>handleData\<close> decodes the result and calls
  \<open>maybeInvokeNext\<close>, which calls \<open>readString\<close> for the info; \<open>getStringFromBuffers\<close>
  returns the empty string, \<open>if (string)\<close> takes it for "nothing yet", and the session
  waits for a string with the status byte left in the chain. The handler is never called
  and the session stays busy (\<open>example_empty_info\<close>; in general,
  \<open>readString_loses_empty_string\<close>). The outcome is the same when the reply arrives
  before the socket has called the callback of the write (\<open>example_empty_info_early\<close>).
\<close>

theorem empty_info_string_is_not_delivered:
  "trace example_empty_info
     = trace logged_in_session @ [Wrote (example_utf8_bytes ''xquery <foo/>'' @ [0])]
   \<and> waiting example_empty_info
       = Some (ReadString, MaybeInvokeNext [JStr ''<foo/>''] [ReadByte]
                 (InvokeHandler ''xquery <foo/>'' (Callback 1)))
   \<and> buffers example_empty_info = [[0]] \<and> busy example_empty_info
   \<and> trace example_empty_info_early
     = trace logged_in_session @ [Wrote (example_utf8_bytes ''xquery <foo/>'' @ [0])]
   \<and> waiting example_empty_info_early
       = Some (ReadString, MaybeInvokeNext [JStr ''<foo/>''] [ReadByte]
                 (InvokeHandler ''xquery <foo/>'' (Callback 1)))
   \<and> buffers example_empty_info_early = [[0]] \<and> busy example_empty_info_early"
  by code_simp

subsection \<open>C2: the queue is first in, first out\<close>

text \<open>
  C2. \<open>execute\<close> is called \<open>N\<close> times while the session is busy, and the commands run
  in the order of the calls, one at a time. Three statements, for every runtime:
  \<^item> On any busy session, whatever it is busy with and whatever its queue holds, \<open>N\<close>
    calls of \<open>execute\<close> add exactly \<open>N\<close> thunks in front of the queue, the latest
    first, and change nothing else.
  \<^item> A command is in flight and the queue holds the commands \<open>earlier\<close>, the oldest at
    the back. \<open>execute\<close> is called for \<open>calls\<close>; then the reply to the command in
    flight arrives, and a reply for each command of \<open>earlier\<close> and of \<open>calls\<close>, all
    with the status 0, the socket calling back after each write. The trace grows by the
    handler of the command in flight and then, for each command of \<open>earlier\<close> and then
    of \<open>calls\<close>, in their order, by the write of the command followed by its handler:
    a command is written only when the handler of the one before it has been called.
    At the end the session is free and the queue is empty.
  \<^item> The handshake is pending. On a new session (with a string buffer of at least one
    byte) \<open>execute\<close> is called before the socket connects, before the nonce arrives,
    before the socket calls back for the login, and before the status of the login
    arrives (\<open>calls0\<close> to \<open>calls3\<close>). When the login is accepted, the first command
    is written and \<open>loggedIn\<close> is emitted; then, with a successful reply to each, the
    commands run as above, in the order of the calls, and the session ends free with an
    empty queue.
\<close>

theorem queued_commands_run_in_order:
  "(busy s \<longrightarrow>
      run rt (executes calls) s = s\<lparr>queue := rev (map thunk calls) @ queue s\<rparr>)
   \<and> (awaiting_reply query handler s \<and> queue s = rev earlier
        \<and> length replies = length earlier + length calls \<longrightarrow>
      trace (run rt (executes calls @ reply_events reply
                     @ concat (map (\<lambda>reply. WriteDone # reply_events reply) replies)) s)
        = trace s @ completed rt (query, handler) reply
            # commands_run rt (earlier @ map thunk calls) replies
      \<and> drained (run rt (executes calls @ reply_events reply
                     @ concat (map (\<lambda>reply. WriteDone # reply_events reply) replies)) s))
   \<and> (0 < option_initialStringBufferSize (options (Session opts))
        \<and> length replies = length (calls0 @ calls1 @ calls2 @ calls3) \<longrightarrow>
      trace (run rt (executes calls0 @ [Connect] @ executes calls1 @ [Data (wire_string nonce)]
                     @ executes calls2 @ [WriteDone] @ executes calls3 @ [Data [0]]
                     @ concat (map (\<lambda>reply. WriteDone # reply_events reply) replies))
               (Session opts))
        = Wrote (login_bytes rt (options (Session opts)) nonce)
            # take 1 (commands_run rt (map thunk (calls0 @ calls1 @ calls2 @ calls3)) replies)
            @ Emitted ''loggedIn'' NoPayload
            # drop 1 (commands_run rt (map thunk (calls0 @ calls1 @ calls2 @ calls3)) replies)
      \<and> drained (run rt (executes calls0 @ [Connect] @ executes calls1
                     @ [Data (wire_string nonce)]
                     @ executes calls2 @ [WriteDone] @ executes calls3 @ [Data [0]]
                     @ concat (map (\<lambda>reply. WriteDone # reply_events reply) replies))
               (Session opts)))"
proof (intro conjI impI)
  assume "busy s"
  then show "run rt (executes calls) s = s\<lparr>queue := rev (map thunk calls) @ queue s\<rparr>"
    by (rule run_executes)
next
  assume h: "awaiting_reply query handler s \<and> queue s = rev earlier
        \<and> length replies = length earlier + length calls"
  let ?s0 = "s\<lparr>queue := rev (earlier @ map thunk calls)\<rparr>"
  from h have bz: "busy s" by (simp add: awaiting_reply_def)
  have 1: "run rt (executes calls) s = ?s0"
    using run_executes [OF bz, of rt calls] h by simp
  have a0: "awaiting_reply query handler ?s0"
    using h by (simp add: awaiting_reply_def)
  have q0: "queue ?s0 = rev (earlier @ map thunk calls)" by simp
  have l0: "length replies = length (earlier @ map thunk calls)" using h by simp
  note d = drain_queue_commands [OF a0 q0 l0, of rt reply]
  show "trace (run rt (executes calls @ reply_events reply
                     @ concat (map (\<lambda>reply. WriteDone # reply_events reply) replies)) s)
        = trace s @ completed rt (query, handler) reply
            # commands_run rt (earlier @ map thunk calls) replies"
    unfolding run_append [of rt "executes calls"] 1 using d by simp
  show "drained (run rt (executes calls @ reply_events reply
                     @ concat (map (\<lambda>reply. WriteDone # reply_events reply) replies)) s)"
    unfolding run_append [of rt "executes calls"] 1 using d by simp
next
  assume h: "0 < option_initialStringBufferSize (options (Session opts))
        \<and> length replies = length (calls0 @ calls1 @ calls2 @ calls3)"
  let ?s = "Session opts"
  let ?calls = "calls0 @ calls1 @ calls2 @ calls3"
  let ?pre = "executes calls0 @ [Connect] @ executes calls1 @ [Data (wire_string nonce)]
                @ executes calls2 @ [WriteDone] @ executes calls3"
  let ?post = "Data [0] # concat (map (\<lambda>reply. WriteDone # reply_events reply) replies)"
  let ?s7 = "?s\<lparr>stringBuffer := stored (stringBuffer ?s) 0 nonce,
          waiting := Some (ReadByte, LoginStatusCont),
          queue := rev (map thunk ?calls),
          trace := [Wrote (login_bytes rt (options ?s) nonce)]\<rparr>"
  have f: "busy ?s" "waiting ?s = None" "buffers ?s = []" "queue ?s = []"
    "writeCallbacks ?s = []" "trace ?s = []" "\<not> inEscape ?s" "stringBufferOffset ?s = 0"
    by (simp_all add: Session_def Let_def)
  have len: "0 < length (stringBuffer ?s)"
    using h by (simp add: Session_def Let_def)
  have 1: "run rt ?pre ?s = ?s7"
    using f len by (rule handshake_with_executes)
  have len7: "0 < length (stringBuffer ?s7)"
    using len stored_length_pos [of "stringBuffer ?s" 0 nonce] by simp
  have l: "length replies = length (map thunk ?calls)" using h by simp
  have la: "trace (run rt ?post ?s7)
           = trace ?s7 @ take 1 (commands_run rt (map thunk ?calls) replies)
               @ Emitted ''loggedIn'' NoPayload # drop 1 (commands_run rt (map thunk ?calls) replies)
         \<and> drained (run rt ?post ?s7)"
    using f len7 l by (intro login_accepted) simp_all
  have ev: "executes calls0 @ [Connect] @ executes calls1 @ [Data (wire_string nonce)]
                     @ executes calls2 @ [WriteDone] @ executes calls3 @ [Data [0]]
                     @ concat (map (\<lambda>reply. WriteDone # reply_events reply) replies)
          = ?pre @ ?post"
    by simp
  show "trace (run rt (executes calls0 @ [Connect] @ executes calls1 @ [Data (wire_string nonce)]
                     @ executes calls2 @ [WriteDone] @ executes calls3 @ [Data [0]]
                     @ concat (map (\<lambda>reply. WriteDone # reply_events reply) replies))
               (Session opts))
        = Wrote (login_bytes rt (options (Session opts)) nonce)
            # take 1 (commands_run rt (map thunk (calls0 @ calls1 @ calls2 @ calls3)) replies)
            @ Emitted ''loggedIn'' NoPayload
            # drop 1 (commands_run rt (map thunk (calls0 @ calls1 @ calls2 @ calls3)) replies)"
    unfolding ev run_append [of rt ?pre] 1 using la by simp
  show "drained (run rt (executes calls0 @ [Connect] @ executes calls1
                     @ [Data (wire_string nonce)]
                     @ executes calls2 @ [WriteDone] @ executes calls3 @ [Data [0]]
                     @ concat (map (\<lambda>reply. WriteDone # reply_events reply) replies))
               (Session opts))"
    unfolding ev run_append [of rt ?pre] 1 using la by simp
qed

theorem queued_commands_run_in_order_witness:
  "busy example_queued
   \<and> run example_runtime (executes [(''b'', None), (''c'', Some (Callback 3))]) example_queued
       = example_queued\<lparr>queue := [(''c'', Callback 3), (''b'', DefaultHandler), (''e'', DefaultHandler)]\<rparr>
   \<and> awaiting_reply ''xquery 1 div 0'' (Callback 1) example_queued
   \<and> queue example_queued = rev [(''e'', DefaultHandler)]
   \<and> length [(example_utf8_bytes ''re'', []), ([], example_utf8_bytes ''ib'')]
       = length [(''e'', DefaultHandler)] + length [(''b'', Some (Callback 2))]
   \<and> trace (run example_runtime
        (executes [(''b'', Some (Callback 2))]
         @ reply_events (example_utf8_bytes ''r1'', example_utf8_bytes ''i1'')
         @ concat (map (\<lambda>reply. WriteDone # reply_events reply)
             [(example_utf8_bytes ''re'', []), ([], example_utf8_bytes ''ib'')]))
        example_queued)
     = trace example_queued
       @ [Called 1 (JStr ''r1'') (JStr ''i1''),
          Wrote [0x65, 0x00],
          Emitted ''result'' (ResultObj (JStr ''re'') (JStr []) JUndefined),
          Wrote [0x62, 0x00],
          Called 2 (JStr []) (JStr ''ib'')]
   \<and> 0 < option_initialStringBufferSize (options (Session (Some (no_options\<lparr>opt_initialStringBufferSize := Some 2\<rparr>))))
   \<and> length [(example_utf8_bytes ''ra'', example_utf8_bytes ''ia''), ([], [])]
       = length ([(''a'', Some (Callback 1))] @ [] @ [(''b'', None)] @ [])
   \<and> trace (run example_runtime
        (executes [(''a'', Some (Callback 1))] @ [Connect] @ executes []
         @ [Data (wire_string (example_utf8_bytes ''abc123''))]
         @ executes [(''b'', None)] @ [WriteDone] @ executes [] @ [Data [0]]
         @ concat (map (\<lambda>reply. WriteDone # reply_events reply)
             [(example_utf8_bytes ''ra'', example_utf8_bytes ''ia''), ([], [])]))
        (Session (Some (no_options\<lparr>opt_initialStringBufferSize := Some 2\<rparr>))))
     = [Wrote (example_utf8_bytes ''admin'' @ [0]
               @ example_utf8_bytes ''md5(md5(admin)abc123)'' @ [0]),
        Wrote [0x61, 0x00],
        Emitted ''loggedIn'' NoPayload,
        Called 1 (JStr ''ra'') (JStr ''ia''),
        Wrote [0x62, 0x00],
        Emitted ''result'' (ResultObj (JStr []) (JStr []) JUndefined)]"
proof -
  have b: "busy example_queued" by code_simp
  have q: "rev (map thunk [(''b'', None), (''c'', Some (Callback 3))]) @ queue example_queued
           = [(''c'', Callback 3), (''b'', DefaultHandler), (''e'', DefaultHandler)]"
    by code_simp
  have 1: "run example_runtime (executes [(''b'', None), (''c'', Some (Callback 3))]) example_queued
       = example_queued\<lparr>queue := [(''c'', Callback 3), (''b'', DefaultHandler), (''e'', DefaultHandler)]\<rparr>"
    using queued_commands_run_in_order [of example_queued example_runtime
        "[(''b'', None), (''c'', Some (Callback 3))]", THEN conjunct1] b
    unfolding q by simp
  let ?replies = "[(example_utf8_bytes ''re'', []), ([], example_utf8_bytes ''ib'')]"
  have a: "awaiting_reply ''xquery 1 div 0'' (Callback 1) example_queued" by code_simp
  have qe: "queue example_queued = rev [(''e'', DefaultHandler)]" by code_simp
  have l: "length ?replies = length [(''e'', DefaultHandler)] + length [(''b'', Some (Callback 2))]"
    by simp
  have r2: "completed example_runtime (''xquery 1 div 0'', Callback 1)
              (example_utf8_bytes ''r1'', example_utf8_bytes ''i1'')
            # commands_run example_runtime
                ([(''e'', DefaultHandler)] @ map thunk [(''b'', Some (Callback 2))]) ?replies
          = [Called 1 (JStr ''r1'') (JStr ''i1''),
             Wrote [0x65, 0x00],
             Emitted ''result'' (ResultObj (JStr ''re'') (JStr []) JUndefined),
             Wrote [0x62, 0x00],
             Called 2 (JStr []) (JStr ''ib'')]"
    by code_simp
  have 2: "trace (run example_runtime
        (executes [(''b'', Some (Callback 2))]
         @ reply_events (example_utf8_bytes ''r1'', example_utf8_bytes ''i1'')
         @ concat (map (\<lambda>reply. WriteDone # reply_events reply) ?replies))
        example_queued)
     = trace example_queued
       @ [Called 1 (JStr ''r1'') (JStr ''i1''),
          Wrote [0x65, 0x00],
          Emitted ''result'' (ResultObj (JStr ''re'') (JStr []) JUndefined),
          Wrote [0x62, 0x00],
          Called 2 (JStr []) (JStr ''ib'')]"
    using queued_commands_run_in_order [where s = example_queued and rt = example_runtime
        and query = "''xquery 1 div 0''" and handler = "Callback 1"
        and earlier = "[(''e'', DefaultHandler)]" and replies = ?replies
        and calls = "[(''b'', Some (Callback 2))]"
        and reply = "(example_utf8_bytes ''r1'', example_utf8_bytes ''i1'')",
        THEN conjunct2, THEN conjunct1] a qe l
    unfolding r2 by simp
  let ?replies3 = "[(example_utf8_bytes ''ra'', example_utf8_bytes ''ia''), ([], [])]"
  have h: "0 < option_initialStringBufferSize (options (Session (Some (no_options\<lparr>opt_initialStringBufferSize := Some 2\<rparr>))))" by code_simp
  have l3: "length ?replies3 = length ([(''a'', Some (Callback 1))] @ [] @ [(''b'', None)] @ [])"
    by simp
  have r3: "Wrote (login_bytes example_runtime (options (Session (Some (no_options\<lparr>opt_initialStringBufferSize := Some 2\<rparr>))))
                     (example_utf8_bytes ''abc123''))
            # take 1 (commands_run example_runtime
                (map thunk ([(''a'', Some (Callback 1))] @ [] @ [(''b'', None)] @ [])) ?replies3)
            @ Emitted ''loggedIn'' NoPayload
            # drop 1 (commands_run example_runtime
                (map thunk ([(''a'', Some (Callback 1))] @ [] @ [(''b'', None)] @ [])) ?replies3)
          = [Wrote (example_utf8_bytes ''admin'' @ [0]
               @ example_utf8_bytes ''md5(md5(admin)abc123)'' @ [0]),
             Wrote [0x61, 0x00],
             Emitted ''loggedIn'' NoPayload,
             Called 1 (JStr ''ra'') (JStr ''ia''),
             Wrote [0x62, 0x00],
             Emitted ''result'' (ResultObj (JStr []) (JStr []) JUndefined)]"
    by code_simp
  have 3: "trace (run example_runtime
        (executes [(''a'', Some (Callback 1))] @ [Connect] @ executes []
         @ [Data (wire_string (example_utf8_bytes ''abc123''))]
         @ executes [(''b'', None)] @ [WriteDone] @ executes [] @ [Data [0]]
         @ concat (map (\<lambda>reply. WriteDone # reply_events reply) ?replies3))
        (Session (Some (no_options\<lparr>opt_initialStringBufferSize := Some 2\<rparr>))))
     = [Wrote (example_utf8_bytes ''admin'' @ [0]
               @ example_utf8_bytes ''md5(md5(admin)abc123)'' @ [0]),
        Wrote [0x61, 0x00],
        Emitted ''loggedIn'' NoPayload,
        Called 1 (JStr ''ra'') (JStr ''ia''),
        Wrote [0x62, 0x00],
        Emitted ''result'' (ResultObj (JStr []) (JStr []) JUndefined)]"
    using queued_commands_run_in_order [where opts = "Some (no_options\<lparr>opt_initialStringBufferSize := Some 2\<rparr>)" and replies = ?replies3
        and ?calls0.0 = "[(''a'', Some (Callback 1))]" and ?calls1.0 = "[]"
        and ?calls2.0 = "[(''b'', None)]" and ?calls3.0 = "[]" and rt = example_runtime
        and nonce = "example_utf8_bytes ''abc123''",
        THEN conjunct2, THEN conjunct2] h l3
    unfolding r3 by simp
  from b 1 a qe l 2 h l3 3 show ?thesis by blast
qed

subsection \<open>C3: strings written to the socket\<close>

text \<open>
  C3. The claim is that a string written to the socket has its zero bytes escaped. The
  command text \<open>a\<close>, U+0000, \<open>b\<close> is written as the bytes \<open>61 00 62 00\<close>:
  \<open>writeStrings\<close> copies the bytes of each string and adds the terminator, and escapes
  nothing (\<open>writeStrings_eq\<close>, for every runtime and every string). The protocol's
  encoding of this text is \<open>61 ff 00 62 00\<close>.
\<close>

theorem writeStrings_does_not_escape:
  "trace (run example_runtime [Execute [CHR ''a'', CHR 0x00, CHR ''b''] None] logged_in_session)
     = trace logged_in_session @ [Wrote [0x61, 0x00, 0x62, 0x00]]
   \<and> wire_string (example_utf8_bytes [CHR ''a'', CHR 0x00, CHR ''b''])
       = [0x61, 0xff, 0x00, 0x62, 0x00]"
  by code_simp

subsection \<open>C4: a reply with a status byte other than 0\<close>

text \<open>
  C4. The claim is that a reply with a status byte other than 0 makes the session raise
  an \<open>error\<close> notification with the text of the command and the info string.
  \<open>invokeHandler\<close> does so when it runs (\<open>nonzero_status_raises_error\<close>: the parts of
  the reply arrive one per data event, or in one fragment with an info string that is
  not empty). It does not run for these two replies to \<open>xquery 1 div 0\<close>, both with
  the status byte 1:
  \<^item> \<open>r\<close>, an empty info string, status 1, in one fragment: \<open>readString\<close> takes the
    empty info string for "nothing yet" (\<open>if (string)\<close>, as in C1) and registers the
    read again with the status byte left in the chain;
  \<^item> an empty result, the message, status 1, arriving before the socket has called the
    callback of the write: the first \<open>readString\<close> of the chain loses the empty result
    in the same way, with the message and the status left in the chain.
  In both sessions the trace holds no \<open>error\<close>: nothing is emitted at all, and the
  session stays busy, waiting for a string.
\<close>

theorem nonzero_status_is_not_reported:
  "trace example_error_empty_info = trace example_in_flight
   \<and> waiting example_error_empty_info
       = Some (ReadString, MaybeInvokeNext [JStr ''r''] [ReadByte]
                 (InvokeHandler ''xquery 1 div 0'' (Callback 1)))
   \<and> buffers example_error_empty_info = [[1]] \<and> busy example_error_empty_info
   \<and> trace example_error_early
       = trace logged_in_session @ [Wrote (example_utf8_bytes ''xquery 1 div 0'' @ [0])]
   \<and> waiting example_error_early
       = Some (ReadString, MaybeInvokeNext [] [ReadString, ReadByte]
                 (InvokeHandler ''xquery 1 div 0'' (Callback 1)))
   \<and> buffers example_error_early = [example_utf8_bytes ''Division by zero'' @ [0, 1]]
   \<and> busy example_error_early"
  by code_simp

subsection \<open>C5: the default handler\<close>

text \<open>
  C5. \<open>execute\<close> is called without a handler and the reply has the status byte 0. The
  claim is that the \<open>result\<close> notification carries the status code. \<open>invokeHandler\<close>
  calls the handler with the result and the info only, so the third parameter of
  \<open>defaultHandler\<close> is \<open>undefined\<close>, and that is the \<open>code\<close> of the object emitted.
\<close>

theorem default_handler_gets_no_code:
  "trace (run example_runtime
       [Execute ''xquery <foo/>'' None, WriteDone,
        Data (example_utf8_bytes ''<foo/>'' @ [0] @ example_utf8_bytes ''ok'' @ [0, 0])]
       logged_in_session)
     = trace logged_in_session
       @ [Wrote (example_utf8_bytes ''xquery <foo/>'' @ [0]),
          Emitted ''result'' (ResultObj (JStr ''<foo/>'') (JStr ''ok'') JUndefined)]"
  by code_simp

subsection \<open>C6: a string delivered one byte per data event\<close>

text \<open>
  C6. A session waits for a string (a \<open>readString\<close> is pending, the chain of buffers is
  empty, the decoder is at the start of a string), and the string buffer has room for at
  least one byte, as it has with the default options. The bytes of \<open>S\<close>, escaped and
  terminated, arrive one per data event. Then the pending continuation is called once,
  with \<open>S\<close>, in a session that has nothing pending and the bytes of \<open>S\<close> in its
  string buffer. \<open>S\<close> is any string that the runtime's UTF-8 decoding gives back from
  its encoding.
\<close>

theorem byte_by_byte_delivery:
  assumes w: "waiting s = Some (ReadString, handler)"
    and b: "buffers s = []"
    and e: "\<not> inEscape s"
    and off: "stringBufferOffset s = 0"
    and len: "0 < length (stringBuffer s)"
    and rt: "utf8_toString rt (utf8_bytes rt S) = S"
  shows "run rt (map (\<lambda>b. Data [b]) (wire_string (utf8_bytes rt S))) s
           = call_cont rt handler (JStr S)
               ((accumulated (utf8_bytes rt S) s)\<lparr>stringBufferOffset := 0, waiting := None\<rparr>)"
proof -
  let ?bs = "utf8_bytes rt S"
  let ?s1 = "(accumulated ?bs s)\<lparr>inEscape := False, buffers := []\<rparr>"
  have m: "map (\<lambda>b. Data [b]) (wire_string ?bs)
             = map Data (map (\<lambda>b. [b]) (escape ?bs)) @ [Data [0]]"
    by (simp add: wire_string_def)
  have c: "concat (map (\<lambda>b. [b]) (escape ?bs)) = escape ?bs"
    by (induction "escape ?bs") (simp_all add: concat_map_singleton)
  have "fold (handleData rt) (map (\<lambda>b. [b]) (escape ?bs)) s = ?s1"
    using w b e by (intro fold_handleData_partial) (simp_all add: c unescape_escape_only)
  then have 1: "run rt (map Data (map (\<lambda>b. [b]) (escape ?bs))) s = ?s1"
    unfolding run_Data .
  have d: "decoded rt ?s1 [] = S"
    using off len rt stored_ok [of "stringBuffer s" 0 ?bs]
    by (simp add: decoded_def accumulated_def)
  have 2: "handleData rt [0] ?s1
            = call_cont rt handler (JStr S)
                (?s1\<lparr>inEscape := False, stringBufferOffset := 0, buffers := [], waiting := None\<rparr>)"
    using w d by (simp add: handleData_string)
  have 3: "?s1\<lparr>inEscape := False, stringBufferOffset := 0, buffers := [], waiting := None\<rparr>
            = (accumulated ?bs s)\<lparr>stringBufferOffset := 0, waiting := None\<rparr>"
    using b e by (simp add: accumulated_def)
  show ?thesis
    unfolding m run_append 1 using 2 3 by (simp add: run_def)
qed

theorem byte_by_byte_delivery_witness:
  "waiting (readString example_runtime (UserCont 7) example_session) = Some (ReadString, UserCont 7)
   \<and> buffers (readString example_runtime (UserCont 7) example_session) = []
   \<and> \<not> inEscape (readString example_runtime (UserCont 7) example_session)
   \<and> stringBufferOffset (readString example_runtime (UserCont 7) example_session) = 0
   \<and> 0 < length (stringBuffer (readString example_runtime (UserCont 7) example_session))
   \<and> utf8_toString example_runtime
         (utf8_bytes example_runtime [CHR 0xE9, CHR 0x00, CHR 0xFF, CHR ''a''])
       = [CHR 0xE9, CHR 0x00, CHR 0xFF, CHR ''a'']
   \<and> wire_string (utf8_bytes example_runtime [CHR 0xE9, CHR 0x00, CHR 0xFF, CHR ''a''])
       = [0xc3, 0xa9, 0xff, 0x00, 0xc3, 0xbf, 0x61, 0x00]
   \<and> trace (run example_runtime
         (map (\<lambda>b. Data [b])
            (wire_string (utf8_bytes example_runtime [CHR 0xE9, CHR 0x00, CHR 0xFF, CHR ''a''])))
         (readString example_runtime (UserCont 7) example_session))
       = [Received 7 (JStr [CHR 0xE9, CHR 0x00, CHR 0xFF, CHR ''a''])]"
proof -
  let ?s = "readString example_runtime (UserCont 7) example_session"
  let ?S = "[CHR 0xE9, CHR 0x00, CHR 0xFF, CHR ''a'']"
  have h1: "waiting ?s = Some (ReadString, UserCont 7)" by code_simp
  have h2: "buffers ?s = []" by code_simp
  have h3: "\<not> inEscape ?s" by code_simp
  have h4: "stringBufferOffset ?s = 0" by code_simp
  have h5: "0 < length (stringBuffer ?s)" by code_simp
  have h6: "utf8_toString example_runtime (utf8_bytes example_runtime ?S) = ?S" by code_simp
  have w: "wire_string (utf8_bytes example_runtime ?S)
             = [0xc3, 0xa9, 0xff, 0x00, 0xc3, 0xbf, 0x61, 0x00]" by code_simp
  have t: "trace (call_cont example_runtime (UserCont 7) (JStr ?S)
             ((accumulated (utf8_bytes example_runtime ?S) ?s)
                \<lparr>stringBufferOffset := 0, waiting := None\<rparr>)) = [Received 7 (JStr ?S)]"
    by code_simp
  from byte_by_byte_delivery [OF h1 h2 h3 h4 h5 h6] t
  have "trace (run example_runtime
          (map (\<lambda>b. Data [b]) (wire_string (utf8_bytes example_runtime ?S))) ?s)
        = [Received 7 (JStr ?S)]"
    by simp
  with h1 h2 h3 h4 h5 h6 w show ?thesis by blast
qed

subsection \<open>C7: the digest of the login\<close>

text \<open>
  C7. A session is created with a string buffer of at least one byte (the default is
  \<open>0x10000\<close>), the socket connects and the server's nonce arrives. The session then
  writes two strings: the user name, and the digest
  \<open>md5(md5(password) + nonce)\<close>, where \<open>md5\<close> is the runtime's hex digest, \<open>+\<close> is
  the concatenation of strings, and the nonce is the string decoded from the bytes
  received.
\<close>

theorem login_digest:
  assumes "0 < option_initialStringBufferSize (options (Session opts))"
  shows "trace (run rt [Connect, Data (wire_string nonce)] (Session opts))
     = [Wrote (utf8_bytes rt (option_user (options (Session opts))) @ [0]
               @ utf8_bytes rt
                   (md5_hex rt (md5_hex rt (option_password (options (Session opts)))
                                @ utf8_toString rt nonce))
               @ [0])]"
proof -
  let ?s0 = "Session opts"
  have f: "waiting ?s0 = None" "buffers ?s0 = []" "\<not> inEscape ?s0" "stringBufferOffset ?s0 = 0"
    "trace ?s0 = []"
    by (simp_all add: Session_def Let_def)
  have len: "0 < length (stringBuffer ?s0)"
    using assms by (simp add: Session_def Let_def)
  let ?s1 = "?s0\<lparr>waiting := Some (ReadString, HandshakeCont)\<rparr>"
  have 1: "step rt Connect ?s0 = ?s1"
    using f by (simp add: performHandshake_def readString_empty)
  have d: "decoded rt ?s1 nonce = utf8_toString rt nonce"
    using f len by (simp add: decoded_ok)
  have 2: "handleData rt (wire_string nonce) ?s1
             = call_cont rt HandshakeCont (JStr (utf8_toString rt nonce))
                 ((accumulated nonce ?s1)\<lparr>inEscape := False, stringBufferOffset := 0,
                     buffers := [], waiting := None\<rparr>)"
    using f d unescape_wire_string [of nonce "[]"] by (simp add: handleData_string)
  show ?thesis
    using 1 2 f by (simp add: run_def writeStrings_eq)
qed

theorem login_digest_witness:
  "0 < option_initialStringBufferSize
         (options (Session (Some (no_options\<lparr>opt_initialStringBufferSize := Some 2\<rparr>))))
   \<and> trace (run example_runtime [Connect, Data (wire_string (example_utf8_bytes ''abc123''))]
         (Session (Some (no_options\<lparr>opt_initialStringBufferSize := Some 2\<rparr>))))
       = [Wrote (example_utf8_bytes ''admin'' @ [0]
                 @ example_utf8_bytes ''md5(md5(admin)abc123)'' @ [0])]"
proof -
  let ?opts = "Some (no_options\<lparr>opt_initialStringBufferSize := Some 2\<rparr>)"
  have h: "0 < option_initialStringBufferSize (options (Session ?opts))" by code_simp
  have r: "[Wrote (utf8_bytes example_runtime (option_user (options (Session ?opts))) @ [0]
               @ utf8_bytes example_runtime
                   (md5_hex example_runtime
                      (md5_hex example_runtime (option_password (options (Session ?opts)))
                       @ utf8_toString example_runtime (example_utf8_bytes ''abc123'')))
               @ [0])]
        = [Wrote (example_utf8_bytes ''admin'' @ [0]
                 @ example_utf8_bytes ''md5(md5(admin)abc123)'' @ [0])]"
    by code_simp
  from login_digest [OF h, of example_runtime "example_utf8_bytes ''abc123''"] r
  have "trace (run example_runtime [Connect, Data (wire_string (example_utf8_bytes ''abc123''))]
         (Session ?opts))
       = [Wrote (example_utf8_bytes ''admin'' @ [0]
                 @ example_utf8_bytes ''md5(md5(admin)abc123)'' @ [0])]"
    by simp
  with h show ?thesis by blast
qed

subsection \<open>C8: the byte after an escape byte\<close>

text \<open>
  C8. A session waits for a string, with an empty chain and a string buffer of at least
  one byte. The bytes \<open>pre\<close> hold no terminator and end outside an escape; they add
  \<open>p\<close> to the string. After them come the escape byte and any byte at all, \<open>0x00\<close>
  and \<open>0xff\<close> included. Whether the two arrive in one fragment or the fragment ends
  with the escape byte, the byte is appended to the string as it is, the flag is
  cleared, and decoding goes on with the rest: between the two fragments the flag is
  set in the session.
\<close>

theorem escaped_byte_is_literal:
  assumes w: "waiting s = Some (ReadString, handler)"
    and b: "buffers s = []"
    and len: "0 < length (stringBuffer s)"
    and off: "stringBufferOffset s \<le> length (stringBuffer s)"
    and u: "unescape (inEscape s) pre = (p, False, None)"
  shows "handleData rt (pre @ 0xff # byte # rest) s
           = handleData rt rest ((accumulated (p @ [byte]) s)\<lparr>inEscape := False\<rparr>)
         \<and> inEscape (handleData rt (pre @ [0xff]) s)
         \<and> handleData rt (byte # rest) (handleData rt (pre @ [0xff]) s)
           = handleData rt rest ((accumulated (p @ [byte]) s)\<lparr>inEscape := False\<rparr>)
         \<and> take (stringBufferOffset (accumulated (p @ [byte]) s))
                (stringBuffer (accumulated (p @ [byte]) s))
           = take (stringBufferOffset s) (stringBuffer s) @ p @ [byte]"
proof -
  let ?s' = "(accumulated (p @ [byte]) s)\<lparr>inEscape := False\<rparr>"
  have w': "waiting ?s' = Some (ReadString, handler)" and b': "buffers ?s' = []"
    using w b by simp_all
  have u1: "unescape (inEscape s) (pre @ 0xff # byte # rest)
              = (case unescape False rest of (q, r) \<Rightarrow> (p @ byte # q, r))"
    using u by (simp add: unescape_append split: prod.splits)
  have 1: "handleData rt (pre @ 0xff # byte # rest) s = handleData rt rest ?s'"
    using w b w' b' u1
    by (simp add: handleData_string decoded_accumulated accumulated_append [symmetric]
          split: prod.splits option.splits)
  have u2: "unescape (inEscape s) (pre @ [0xff]) = (p, True, None)"
    using u by (simp add: unescape_append)
  have 2: "handleData rt (pre @ [0xff]) s = (accumulated p s)\<lparr>inEscape := True, buffers := []\<rparr>"
    using w b u2 by (simp add: handleData_string)
  let ?s2 = "(accumulated p s)\<lparr>inEscape := True, buffers := []\<rparr>"
  have u3: "unescape (inEscape ?s2) (byte # rest)
              = (case unescape False rest of (q, r) \<Rightarrow> (byte # q, r))"
    by simp
  have 3: "handleData rt (byte # rest) ?s2 = handleData rt rest ?s'"
    using w b w' b' u3
    by (simp add: handleData_string decoded_accumulated accumulated_append [symmetric]
          split: prod.splits option.splits)
  have 4: "take (stringBufferOffset (accumulated (p @ [byte]) s))
                (stringBuffer (accumulated (p @ [byte]) s))
           = take (stringBufferOffset s) (stringBuffer s) @ p @ [byte]"
    using stored_ok [OF len off, of "p @ [byte]"] by (simp add: accumulated_def)
  show ?thesis
    using 1 2 3 4 by simp
qed

theorem escaped_byte_is_literal_witness:
  "waiting (readString example_runtime (UserCont 7) example_session) = Some (ReadString, UserCont 7)
   \<and> buffers (readString example_runtime (UserCont 7) example_session) = []
   \<and> 0 < length (stringBuffer (readString example_runtime (UserCont 7) example_session))
   \<and> stringBufferOffset (readString example_runtime (UserCont 7) example_session)
       \<le> length (stringBuffer (readString example_runtime (UserCont 7) example_session))
   \<and> unescape (inEscape (readString example_runtime (UserCont 7) example_session)) [0x61]
       = ([0x61], False, None)
   \<and> trace (handleData example_runtime ([0x61] @ 0xff # 0x00 # [0x62, 0x00])
         (readString example_runtime (UserCont 7) example_session))
       = [Received 7 (JStr [CHR ''a'', CHR 0x00, CHR ''b''])]
   \<and> trace (handleData example_runtime (0x00 # [0x62, 0x00])
         (handleData example_runtime ([0x61] @ [0xff])
            (readString example_runtime (UserCont 7) example_session)))
       = [Received 7 (JStr [CHR ''a'', CHR 0x00, CHR ''b''])]"
proof -
  let ?s = "readString example_runtime (UserCont 7) example_session"
  have h1: "waiting ?s = Some (ReadString, UserCont 7)" by code_simp
  have h2: "buffers ?s = []" by code_simp
  have h3: "0 < length (stringBuffer ?s)" by code_simp
  have h4: "stringBufferOffset ?s \<le> length (stringBuffer ?s)" by code_simp
  have h5: "unescape (inEscape ?s) [0x61] = ([0x61], False, None)" by code_simp
  have t: "trace (handleData example_runtime [0x62, 0x00]
             ((accumulated ([0x61] @ [0x00]) ?s)\<lparr>inEscape := False\<rparr>))
           = [Received 7 (JStr [CHR ''a'', CHR 0x00, CHR ''b''])]"
    by code_simp
  note th = escaped_byte_is_literal [OF h1 h2 h3 h4 h5, of example_runtime "0x00" "[0x62, 0x00]"]
  from th t have
    "trace (handleData example_runtime ([0x61] @ 0xff # 0x00 # [0x62, 0x00]) ?s)
       = [Received 7 (JStr [CHR ''a'', CHR 0x00, CHR ''b''])]"
    "trace (handleData example_runtime (0x00 # [0x62, 0x00])
         (handleData example_runtime ([0x61] @ [0xff]) ?s))
       = [Received 7 (JStr [CHR ''a'', CHR 0x00, CHR ''b''])]"
    by simp_all
  with h1 h2 h3 h4 h5 show ?thesis by blast
qed

subsection \<open>C9: after the socket has ended\<close>

text \<open>
  C9, as stated: an \<open>execute\<close> after the socket's \<open>end\<close> fails, it does not block
  silently. In \<open>example_after_end\<close> the socket ends and \<open>execute\<close> is called with a
  handler: nothing is written, nothing is emitted, the handler is not called, and the
  call sits in the queue of a busy session with no read and no write pending.
\<close>

theorem execute_after_end_counterexample:
  "trace example_after_end = trace logged_in_session
   \<and> queue example_after_end = [(''xquery 1'', Callback 1)]
   \<and> busy example_after_end \<and> waiting example_after_end = None
   \<and> writeCallbacks example_after_end = []"
  by code_simp

text \<open>
  C9, amended: the socket's \<open>end\<close> marks the session busy, and every \<open>execute\<close> called
  after it, while the socket delivers nothing more, is put on the queue: the session
  stays busy, and nothing is written, emitted or called.
\<close>

theorem execute_after_end_is_queued:
  "run rt (map (\<lambda>(query, handler). Execute query handler) calls) (step rt End s)
     = s\<lparr>busy := True, queue := rev (map thunk calls) @ queue s\<rparr>"
  by (simp add: run_executes_busy)

subsection \<open>C10: data that arrives when no read is pending\<close>

text \<open>
  C10. With nothing waiting, \<open>handleData\<close> adds the chunk at the back of the chain and
  does nothing else: no continuation is called, no byte is dropped or moved. The next
  read takes the bytes in the order of their arrival. \<open>readByte\<close> takes the first byte
  of the first chunk of the chain (\<open>undefined\<close> from an empty chunk) and leaves the rest
  in place. \<open>readString\<close> decodes what the chunks hold when they are put end to end,
  oldest first: the string is made of the bytes up to the first terminator, and the
  chain left holds, in order, the bytes after it; with no terminator, all bytes go to
  the string buffer and the read is registered. (\<open>readString\<close> hands the string to its
  handler unless it is empty.)
\<close>

theorem idle_data_is_buffered:
  assumes w: "waiting s = None"
  shows "handleData rt data s = s\<lparr>buffers := buffers s @ [data]\<rparr>
    \<and> readByte rt handler (handleData rt data s)
        = call_cont rt handler
            (case hd (buffers s @ [data]) of [] \<Rightarrow> JUndefined | byte # _ \<Rightarrow> JByte byte)
            (s\<lparr>buffers := (if length (hd (buffers s @ [data])) > 1
                            then drop 1 (hd (buffers s @ [data])) # tl (buffers s @ [data])
                            else tl (buffers s @ [data]))\<rparr>)
    \<and> (case unescape (inEscape s) (concat (buffers s) @ data) of
          (p, e, Some rest) \<Rightarrow>
            \<exists>remaining. concat remaining = rest \<and>
              readString rt handler (handleData rt data s)
                = (if decoded rt s p \<noteq> [] then
                     call_cont rt handler (JStr (decoded rt s p))
                       ((accumulated p s)\<lparr>inEscape := e, stringBufferOffset := 0,
                          buffers := remaining\<rparr>)
                   else
                     (accumulated p s)\<lparr>inEscape := e, stringBufferOffset := 0,
                        buffers := remaining, waiting := Some (ReadString, handler)\<rparr>)
        | (p, e, None) \<Rightarrow>
            readString rt handler (handleData rt data s)
              = (accumulated p s)\<lparr>inEscape := e, buffers := [],
                   waiting := Some (ReadString, handler)\<rparr>)"
proof -
  let ?s1 = "s\<lparr>buffers := buffers s @ [data]\<rparr>"
  have 1: "handleData rt data s = ?s1"
    using w by (rule handleData_idle)
  obtain first others where c: "buffers s @ [data] = first # others"
    by (cases "buffers s @ [data]") auto
  have 2: "readByte rt handler ?s1
        = call_cont rt handler
            (case hd (buffers s @ [data]) of [] \<Rightarrow> JUndefined | byte # _ \<Rightarrow> JByte byte)
            (s\<lparr>buffers := (if length (hd (buffers s @ [data])) > 1
                            then drop 1 (hd (buffers s @ [data])) # tl (buffers s @ [data])
                            else tl (buffers s @ [data]))\<rparr>)"
    using readByte_first_chunk [of ?s1 first others rt handler] c by simp
  obtain p e r where uc: "unescape_chain (inEscape s) (buffers s @ [data]) = (p, e, r)"
    by (cases "unescape_chain (inEscape s) (buffers s @ [data])") auto
  have u: "unescape (inEscape s) (concat (buffers s) @ data) = (p, e, map_option concat r)"
    using unescape_chain_concat [of "inEscape s" "buffers s @ [data]"] uc by simp
  have 3: "(case unescape (inEscape s) (concat (buffers s) @ data) of
          (p, e, Some rest) \<Rightarrow>
            \<exists>remaining. concat remaining = rest \<and>
              readString rt handler ?s1
                = (if decoded rt s p \<noteq> [] then
                     call_cont rt handler (JStr (decoded rt s p))
                       ((accumulated p s)\<lparr>inEscape := e, stringBufferOffset := 0,
                          buffers := remaining\<rparr>)
                   else
                     (accumulated p s)\<lparr>inEscape := e, stringBufferOffset := 0,
                        buffers := remaining, waiting := Some (ReadString, handler)\<rparr>)
        | (p, e, None) \<Rightarrow>
            readString rt handler ?s1
              = (accumulated p s)\<lparr>inEscape := e, buffers := [],
                   waiting := Some (ReadString, handler)\<rparr>)"
  proof (cases r)
    case None
    with u uc show ?thesis by (simp add: readString_unescape)
  next
    case (Some remaining)
    with u uc show ?thesis
      by (simp add: readString_unescape) blast
  qed
  show ?thesis
    unfolding 1 using 2 3 by simp
qed

theorem idle_data_is_buffered_witness:
  "waiting logged_in_session = None
   \<and> handleData example_runtime [0x6f, 0x6b, 0x00, 0x07] logged_in_session
       = logged_in_session\<lparr>buffers := buffers logged_in_session @ [[0x6f, 0x6b, 0x00, 0x07]]\<rparr>
   \<and> buffers (handleData example_runtime [0x6f, 0x6b, 0x00, 0x07] logged_in_session)
       = [[0x6f, 0x6b, 0x00, 0x07]]
   \<and> trace (readString example_runtime (UserCont 7)
         (handleData example_runtime [0x6f, 0x6b, 0x00, 0x07] logged_in_session))
       = trace logged_in_session @ [Received 7 (JStr ''ok'')]
   \<and> buffers (readString example_runtime (UserCont 7)
         (handleData example_runtime [0x6f, 0x6b, 0x00, 0x07] logged_in_session))
       = [[0x07]]"
proof -
  have h: "waiting logged_in_session = None" by code_simp
  note th = idle_data_is_buffered [OF h, of example_runtime "[0x6f, 0x6b, 0x00, 0x07]" "UserCont 7"]
  from th have 1: "handleData example_runtime [0x6f, 0x6b, 0x00, 0x07] logged_in_session
       = logged_in_session\<lparr>buffers := buffers logged_in_session @ [[0x6f, 0x6b, 0x00, 0x07]]\<rparr>"
    by (rule conjunct1)
  have 2: "buffers (handleData example_runtime [0x6f, 0x6b, 0x00, 0x07] logged_in_session)
       = [[0x6f, 0x6b, 0x00, 0x07]]" by code_simp
  have 3: "trace (readString example_runtime (UserCont 7)
         (handleData example_runtime [0x6f, 0x6b, 0x00, 0x07] logged_in_session))
       = trace logged_in_session @ [Received 7 (JStr ''ok'')]" by code_simp
  have 4: "buffers (readString example_runtime (UserCont 7)
         (handleData example_runtime [0x6f, 0x6b, 0x00, 0x07] logged_in_session))
       = [[0x07]]" by code_simp
  from h 1 2 3 4 show ?thesis by blast
qed

end
